theory Spec2Isabelle
  imports Main "HOL-Library.Word"
begin

section \<open>Data model of smart\_pointers.h\<close>

text \<open>
  Addresses are natural numbers; a null pointer is \<open>None\<close>. \<open>size_t\<close> is a 64-bit
  unsigned word, so \<open>++\<close> and \<open>--\<close> wrap as they do in C++.
\<close>

type_synonym addr = nat
type_synonym size_t = "64 word"

text \<open>
  The two concrete control blocks. \<open>RegularControlBlock\<close> stores the raw pointer
  \<open>T* object\<close>; \<open>MakeSharedControlBlock\<close> holds the \<open>T object\<close> itself.
  The deleter of a regular block is \<open>std::default_delete<T>\<close>, the default template
  argument of the constructor; allocators only hand out and take back storage.
\<close>

datatype block_kind = RegularControlBlock "addr option" | MakeSharedControlBlock

record BaseControlBlock =
  shared_cnt :: size_t
  weak_cnt :: size_t
  kind :: block_kind

text \<open>
  Where an object of type \<open>T\<close> lives: at an address of its own (reached through a
  \<open>T*\<close>), or inside the \<open>MakeSharedControlBlock\<close> at a block address.
\<close>

datatype objref = Separate addr | Embedded addr

text \<open>Both handle classes have the fields \<open>T* object\<close> and \<open>BaseControlBlock* cb\<close>.\<close>

datatype SharedPtr = SharedPtr (sp_object: "addr option") (sp_cb: "addr option")

datatype WeakPtr = WeakPtr (wp_object: "addr option") (wp_cb: "addr option")

text \<open>
  The calls the claims speak about are recorded in a trace: the allocation of a control
  block and the two virtual calls \<open>destroy_object()\<close> and \<open>deallocate_cb()\<close>.
\<close>

datatype event = Allocate addr | Destroy_object addr | Deallocate_cb addr

text \<open>
  The store: the control blocks by address, the allocator's next free block address, the
  member \<open>EnableSharedFromThis<T>::wptr\<close> of every object (meaningful when \<open>T\<close>
  derives from \<open>EnableSharedFromThis<T>\<close>), and the trace. The store keeps the fields
  of a block after \<open>deallocate_cb()\<close>, so that the reads the source makes afterwards
  have a value in the model; whether a block has been released is read from the trace.
\<close>

record heap =
  blocks :: "addr \<Rightarrow> BaseControlBlock"
  next_cb :: addr
  wptr :: "objref \<Rightarrow> WeakPtr"
  trace :: "event list"

datatype fault = NullDereference

section \<open>Control blocks\<close>

definition inc_shared_cnt :: "addr \<Rightarrow> heap \<Rightarrow> heap" where
  "inc_shared_cnt b h =
     h\<lparr>blocks := (blocks h)(b := (blocks h b)\<lparr>shared_cnt := shared_cnt (blocks h b) + 1\<rparr>)\<rparr>"

definition dec_shared_cnt :: "addr \<Rightarrow> heap \<Rightarrow> heap" where
  "dec_shared_cnt b h =
     h\<lparr>blocks := (blocks h)(b := (blocks h b)\<lparr>shared_cnt := shared_cnt (blocks h b) - 1\<rparr>)\<rparr>"

definition inc_weak_cnt :: "addr \<Rightarrow> heap \<Rightarrow> heap" where
  "inc_weak_cnt b h =
     h\<lparr>blocks := (blocks h)(b := (blocks h b)\<lparr>weak_cnt := weak_cnt (blocks h b) + 1\<rparr>)\<rparr>"

definition dec_weak_cnt :: "addr \<Rightarrow> heap \<Rightarrow> heap" where
  "dec_weak_cnt b h =
     h\<lparr>blocks := (blocks h)(b := (blocks h b)\<lparr>weak_cnt := weak_cnt (blocks h b) - 1\<rparr>)\<rparr>"

text \<open>\<open>deallocate_cb()\<close> of either block: the block's storage goes back to the allocator.\<close>

definition deallocate_cb :: "addr \<Rightarrow> heap \<Rightarrow> heap" where
  "deallocate_cb b h = h\<lparr>trace := trace h @ [Deallocate_cb b]\<rparr>"

section \<open>WeakPtr\<close>

text \<open>\<open>WeakPtr()\<close>\<close>

definition WeakPtr_empty :: WeakPtr where
  "WeakPtr_empty = WeakPtr None None"

text \<open>\<open>WeakPtr(const SharedPtr<T>& sp)\<close>\<close>

definition WeakPtr_from_SharedPtr :: "heap \<Rightarrow> SharedPtr \<Rightarrow> WeakPtr \<times> heap" where
  "WeakPtr_from_SharedPtr h sp =
     (WeakPtr (sp_object sp) (sp_cb sp),
      case sp_cb sp of None \<Rightarrow> h | Some b \<Rightarrow> inc_weak_cnt b h)"

text \<open>\<open>WeakPtr(const WeakPtr& wptr)\<close>\<close>

definition WeakPtr_copy :: "heap \<Rightarrow> WeakPtr \<Rightarrow> WeakPtr \<times> heap" where
  "WeakPtr_copy h w =
     (WeakPtr (wp_object w) (wp_cb w),
      case wp_cb w of None \<Rightarrow> h | Some b \<Rightarrow> inc_weak_cnt b h)"

text \<open>\<open>WeakPtr(WeakPtr&& wptr)\<close>: the new handle and the source as it is left.\<close>

definition WeakPtr_move :: "WeakPtr \<Rightarrow> WeakPtr \<times> WeakPtr" where
  "WeakPtr_move w = (WeakPtr (wp_object w) (wp_cb w), WeakPtr None None)"

text \<open>\<open>WeakPtr::clear()\<close>, the body of the destructor.\<close>

definition WeakPtr_clear :: "heap \<Rightarrow> WeakPtr \<Rightarrow> heap" where
  "WeakPtr_clear h w =
     (case wp_cb w of
        None \<Rightarrow> h
      | Some b \<Rightarrow>
          let h1 = dec_weak_cnt b h in
          if shared_cnt (blocks h1 b) = 0 \<and> weak_cnt (blocks h1 b) = 0
          then deallocate_cb b h1 else h1)"

text \<open>\<open>WeakPtr::use_count()\<close> and \<open>WeakPtr::expired()\<close>\<close>

definition WeakPtr_use_count :: "heap \<Rightarrow> WeakPtr \<Rightarrow> size_t" where
  "WeakPtr_use_count h w =
     (case wp_cb w of None \<Rightarrow> 0 | Some b \<Rightarrow> shared_cnt (blocks h b))"

definition WeakPtr_expired :: "heap \<Rightarrow> WeakPtr \<Rightarrow> bool" where
  "WeakPtr_expired h w = (WeakPtr_use_count h w = 0)"

section \<open>SharedPtr\<close>

text \<open>\<open>SharedPtr()\<close>\<close>

definition SharedPtr_empty :: SharedPtr where
  "SharedPtr_empty = SharedPtr None None"

text \<open>
  The destructor of the owned \<open>T\<close>. The only part of a \<open>T\<close> the header knows is the
  base \<open>EnableSharedFromThis<T>\<close>, whose member \<open>wptr\<close> is destroyed with the object;
  \<open>esft\<close> is \<open>std::is_base_of_v<EnableSharedFromThis<T>, T>\<close>.
\<close>

definition destroy_T :: "bool \<Rightarrow> objref \<Rightarrow> heap \<Rightarrow> heap" where
  "destroy_T esft loc h = (if esft then WeakPtr_clear h (wptr h loc) else h)"

text \<open>
  \<open>destroy_object()\<close>: the regular block calls \<open>del(object)\<close>, which for
  \<open>std::default_delete\<close> is \<open>delete object\<close> (nothing for a null pointer); the
  make-shared block destroys the embedded object in place.
\<close>

definition destroy_object :: "bool \<Rightarrow> addr \<Rightarrow> heap \<Rightarrow> heap" where
  "destroy_object esft b h =
     (let h1 = h\<lparr>trace := trace h @ [Destroy_object b]\<rparr> in
      case kind (blocks h1 b) of
        RegularControlBlock None \<Rightarrow> h1
      | RegularControlBlock (Some p) \<Rightarrow> destroy_T esft (Separate p) h1
      | MakeSharedControlBlock \<Rightarrow> destroy_T esft (Embedded b) h1)"

text \<open>\<open>SharedPtr::clear()\<close>, the body of the destructor.\<close>

definition SharedPtr_clear :: "bool \<Rightarrow> heap \<Rightarrow> SharedPtr \<Rightarrow> heap" where
  "SharedPtr_clear esft h sp =
     (case sp_cb sp of
        None \<Rightarrow> h
      | Some b \<Rightarrow>
          let h1 = dec_shared_cnt b h in
          if shared_cnt (blocks h1 b) = 0
          then (let h2 = destroy_object esft b h1 in
                if weak_cnt (blocks h2 b) = 0 then deallocate_cb b h2 else h2)
          else h1)"

text \<open>
  \<open>SharedPtr::update_enable_shared_from_this()\<close>. The assignment \<open>wptr = *this\<close>
  converts \<open>*this\<close> with \<open>WeakPtr(const SharedPtr<T>&)\<close> and move-assigns the
  temporary: \<open>WeakPtr copy(std::move(tmp)); swap(copy);\<close>, after which \<open>copy\<close>, holding
  the member's old value, and the emptied temporary are destroyed.
\<close>

definition update_enable_shared_from_this :: "bool \<Rightarrow> heap \<Rightarrow> SharedPtr \<Rightarrow> heap" where
  "update_enable_shared_from_this esft h this =
     (case sp_cb this of
        None \<Rightarrow> h
      | Some b \<Rightarrow>
          if esft then
            (let loc = (case sp_object this of Some p \<Rightarrow> Separate p | None \<Rightarrow> Embedded b);
                 (tmp, h1) = WeakPtr_from_SharedPtr h this;
                 (copy, tmp') = WeakPtr_move tmp;
                 old = wptr h1 loc;
                 h2 = h1\<lparr>wptr := (wptr h1)(loc := copy)\<rparr>;
                 h3 = WeakPtr_clear h2 old
             in WeakPtr_clear h3 tmp')
          else h)"

text \<open>
  \<open>SharedPtr(T* ptr, const Deleter&, Alloc)\<close>. The member initialiser sets only
  \<open>object\<close>; \<open>cb\<close> still has its default \<open>nullptr\<close> when
  \<open>update_enable_shared_from_this()\<close> runs, and is assigned at the end.
\<close>

definition SharedPtr_from_ptr :: "bool \<Rightarrow> heap \<Rightarrow> addr option \<Rightarrow> SharedPtr \<times> heap" where
  "SharedPtr_from_ptr esft h ptr =
     (let h1 = update_enable_shared_from_this esft h (SharedPtr ptr None);
          regular_cb = next_cb h1;
          h2 = h1\<lparr>next_cb := Suc regular_cb, trace := trace h1 @ [Allocate regular_cb]\<rparr>;
          h3 = h2\<lparr>blocks := (blocks h2)
                 (regular_cb := \<lparr>shared_cnt = 1, weak_cnt = 0, kind = RegularControlBlock ptr\<rparr>)\<rparr>
      in (SharedPtr ptr (Some regular_cb), h3))"

text \<open>\<open>SharedPtr(const SharedPtr& shptr)\<close>\<close>

definition SharedPtr_copy :: "bool \<Rightarrow> heap \<Rightarrow> SharedPtr \<Rightarrow> SharedPtr \<times> heap" where
  "SharedPtr_copy esft h shptr =
     (let this = SharedPtr (sp_object shptr) (sp_cb shptr);
          h1 = update_enable_shared_from_this esft h this
      in (this, case sp_cb this of None \<Rightarrow> h1 | Some b \<Rightarrow> inc_shared_cnt b h1))"

text \<open>
  Constructing a handle from an rvalue handle of the same type, \<open>SharedPtr<T> x(std::move(y))\<close>:
  the new handle, the source as it is left, the store. The class declares no move
  constructor of its own; the only constructor with an rvalue parameter is the template
  \<open>SharedPtr(SharedPtr<Y>&& shptr)\<close>, constrained by \<open>std::is_convertible_v<Y, T>\<close>.
  \<open>conv\<close> is \<open>std::is_convertible_v<T, T>\<close>. When it holds the template is chosen for
  \<open>Y = T\<close> and the source is emptied; when it does not (a \<open>T\<close> with a deleted copy
  constructor, an abstract \<open>T\<close>) the only viable constructor is the copy constructor
  \<open>SharedPtr(const SharedPtr&)\<close>, which leaves the source as it is and raises
  \<open>shared_cnt\<close>.
\<close>

definition SharedPtr_move ::
  "bool \<Rightarrow> bool \<Rightarrow> heap \<Rightarrow> SharedPtr \<Rightarrow> SharedPtr \<times> SharedPtr \<times> heap" where
  "SharedPtr_move conv esft h shptr =
     (if conv then
        (let this = SharedPtr (sp_object shptr) (sp_cb shptr);
             h1 = update_enable_shared_from_this esft h this
         in (this, SharedPtr None None, h1))
      else
        (let (this, h1) = SharedPtr_copy esft h shptr
         in (this, shptr, h1)))"

text \<open>\<open>SharedPtr(MakeSharedControlBlock<T, Alloc>* make_shared_cb)\<close>\<close>

definition SharedPtr_from_make_shared_cb :: "bool \<Rightarrow> heap \<Rightarrow> addr \<Rightarrow> SharedPtr \<times> heap" where
  "SharedPtr_from_make_shared_cb esft h make_shared_cb =
     (let this = SharedPtr None (Some make_shared_cb)
      in (this, update_enable_shared_from_this esft h this))"

text \<open>
  \<open>SharedPtr(WeakPtr<T> wptr)\<close>. The parameter is passed by value: the caller
  copy-constructs it from its argument and destroys it when the constructor returns.
\<close>

definition SharedPtr_from_WeakPtr :: "heap \<Rightarrow> WeakPtr \<Rightarrow> SharedPtr \<times> heap" where
  "SharedPtr_from_WeakPtr h arg =
     (let (wptr_param, h1) = WeakPtr_copy h arg;
          this = SharedPtr (wp_object wptr_param) (wp_cb wptr_param);
          h2 = (case sp_cb this of None \<Rightarrow> h1 | Some b \<Rightarrow> inc_shared_cnt b h1)
      in (this, WeakPtr_clear h2 wptr_param))"

text \<open>\<open>SharedPtr::use_count()\<close>: \<open>cb->shared_cnt\<close>, with no test of \<open>cb\<close>.\<close>

definition SharedPtr_use_count :: "heap \<Rightarrow> SharedPtr \<Rightarrow> fault + size_t" where
  "SharedPtr_use_count h sp =
     (case sp_cb sp of None \<Rightarrow> Inl NullDereference | Some b \<Rightarrow> Inr (shared_cnt (blocks h b)))"

text \<open>\<open>SharedPtr::get()\<close>\<close>

definition SharedPtr_get :: "SharedPtr \<Rightarrow> addr option" where
  "SharedPtr_get sp = sp_object sp"

text \<open>
  \<open>operator*\<close> and \<open>operator->\<close> yield the same object: the one \<open>object\<close> points to,
  or else the member \<open>object\<close> of the block \<open>cb\<close> (an unchecked \<open>static_cast\<close>).
\<close>

definition SharedPtr_deref :: "SharedPtr \<Rightarrow> fault + objref" where
  "SharedPtr_deref sp =
     (case sp_object sp of
        Some p \<Rightarrow> Inr (Separate p)
      | None \<Rightarrow> (case sp_cb sp of None \<Rightarrow> Inl NullDereference | Some b \<Rightarrow> Inr (Embedded b)))"

text \<open>
  \<open>makeShared<T>(args...)\<close>: \<open>new MakeSharedControlBlock(1, 0, alloc, args...)\<close>
  allocates the block and constructs the \<open>T\<close> in it (its \<open>wptr\<close> member empty), then the
  private constructor wraps the block. (\<open>allocateShared\<close> builds a block of another
  type, \<open>MakeSharedControlBlock<T, Alloc>\<close>, and is not part of the model.)
\<close>

definition new_MakeSharedControlBlock :: "size_t \<Rightarrow> size_t \<Rightarrow> heap \<Rightarrow> addr \<times> heap" where
  "new_MakeSharedControlBlock sc wc h =
     (let cb = next_cb h;
          h1 = h\<lparr>next_cb := Suc cb, trace := trace h @ [Allocate cb]\<rparr>;
          h2 = h1\<lparr>blocks := (blocks h1)
                 (cb := \<lparr>shared_cnt = sc, weak_cnt = wc, kind = MakeSharedControlBlock\<rparr>)\<rparr>
      in (cb, h2\<lparr>wptr := (wptr h2)(Embedded cb := WeakPtr None None)\<rparr>))"

definition makeShared :: "bool \<Rightarrow> heap \<Rightarrow> SharedPtr \<times> heap" where
  "makeShared esft h =
     (let (cb, h1) = new_MakeSharedControlBlock 1 0 h
      in SharedPtr_from_make_shared_cb esft h1 cb)"

text \<open>\<open>WeakPtr::lock()\<close>\<close>

definition WeakPtr_lock :: "heap \<Rightarrow> WeakPtr \<Rightarrow> SharedPtr \<times> heap" where
  "WeakPtr_lock h w =
     (if WeakPtr_expired h w then (SharedPtr None None, h) else SharedPtr_from_WeakPtr h w)"

text \<open>\<open>EnableSharedFromThis<T>::shared_from_this()\<close> of the object at \<open>loc\<close>.\<close>

definition shared_from_this :: "heap \<Rightarrow> objref \<Rightarrow> SharedPtr \<times> heap" where
  "shared_from_this h loc = WeakPtr_lock h (wptr h loc)"

section \<open>An initial store\<close>

text \<open>No block allocated yet, every \<open>wptr\<close> member empty, nothing traced.\<close>

definition heap_init :: heap where
  "heap_init =
     \<lparr>blocks = (\<lambda>_. \<lparr>shared_cnt = 0, weak_cnt = 0, kind = RegularControlBlock None\<rparr>),
      next_cb = 0, wptr = (\<lambda>_. WeakPtr None None), trace = []\<rparr>"

section \<open>Handles held in variables\<close>

text \<open>
  Assignment, \<open>reset\<close> and \<open>swap\<close> act on handles that exist already, and an
  assignment may name the same handle on both sides. The handles of a program are
  therefore kept in two lists of variables, addressed by position, next to the store.
\<close>

record frame =
  mem :: heap
  strong :: "SharedPtr list"
  weak :: "WeakPtr list"

definition frame_init :: frame where
  "frame_init = \<lparr>mem = heap_init, strong = [], weak = []\<rparr>"

text \<open>Removing the variable at position \<open>i\<close>, when its lifetime ends.\<close>

definition drop_var :: "nat \<Rightarrow> 'a list \<Rightarrow> 'a list" where
  "drop_var i vs = take i vs @ drop (Suc i) vs"

subsection \<open>Strong handles\<close>

text \<open>Declarations: \<open>SharedPtr<T> x;\<close>, \<open>x(new T)\<close> with a fresh object at \<open>p\<close>,
  \<open>x = makeShared<T>()\<close>, \<open>x(y)\<close>, \<open>x(std::move(y))\<close>, \<open>x = w.lock()\<close>.\<close>

definition decl_SharedPtr :: "frame \<Rightarrow> frame" where
  "decl_SharedPtr f = f\<lparr>strong := strong f @ [SharedPtr None None]\<rparr>"

definition decl_SharedPtr_from_new :: "bool \<Rightarrow> addr \<Rightarrow> frame \<Rightarrow> frame" where
  "decl_SharedPtr_from_new esft p f =
     (let h0 = (mem f)\<lparr>wptr := (wptr (mem f))(Separate p := WeakPtr None None)\<rparr>;
          (sp, h) = SharedPtr_from_ptr esft h0 (Some p)
      in f\<lparr>mem := h, strong := strong f @ [sp]\<rparr>)"

definition decl_makeShared :: "bool \<Rightarrow> frame \<Rightarrow> frame" where
  "decl_makeShared esft f =
     (let (sp, h) = makeShared esft (mem f) in f\<lparr>mem := h, strong := strong f @ [sp]\<rparr>)"

definition decl_SharedPtr_copy :: "bool \<Rightarrow> nat \<Rightarrow> frame \<Rightarrow> frame" where
  "decl_SharedPtr_copy esft j f =
     (let (sp, h) = SharedPtr_copy esft (mem f) (strong f ! j)
      in f\<lparr>mem := h, strong := strong f @ [sp]\<rparr>)"

definition decl_SharedPtr_move :: "bool \<Rightarrow> bool \<Rightarrow> nat \<Rightarrow> frame \<Rightarrow> frame" where
  "decl_SharedPtr_move conv esft j f =
     (let (sp, src, h) = SharedPtr_move conv esft (mem f) (strong f ! j)
      in f\<lparr>mem := h, strong := (strong f)[j := src] @ [sp]\<rparr>)"

definition decl_lock :: "nat \<Rightarrow> frame \<Rightarrow> frame" where
  "decl_lock j f =
     (let (sp, h) = WeakPtr_lock (mem f) (weak f ! j)
      in f\<lparr>mem := h, strong := strong f @ [sp]\<rparr>)"

text \<open>
  \<open>operator=(const SharedPtr& shptr)\<close> on variable \<open>i\<close> with argument \<open>j\<close>:
  nothing when both are the same object; otherwise \<open>SharedPtr copy(shptr); swap(copy);\<close>
  and \<open>copy\<close>, now holding the old value of \<open>*this\<close>, is destroyed.
\<close>

definition SharedPtr_copy_assign :: "bool \<Rightarrow> nat \<Rightarrow> nat \<Rightarrow> frame \<Rightarrow> frame" where
  "SharedPtr_copy_assign esft i j f =
     (if i = j then f
      else
        let (copy, h1) = SharedPtr_copy esft (mem f) (strong f ! j);
            copy' = strong f ! i;
            vs = (strong f)[i := copy]
        in f\<lparr>mem := SharedPtr_clear esft h1 copy', strong := vs\<rparr>)"

text \<open>
  \<open>operator=(SharedPtr&& shptr)\<close>: \<open>SharedPtr copy(std::move(shptr)); swap(copy);\<close>.
  The temporary is constructed as \<open>SharedPtr_move\<close> says, so for a \<open>T\<close> that is not
  convertible to itself it is a copy and the source keeps its pair. The source is
  written before \<open>*this\<close> is read by \<open>swap\<close>, which matters when both are the same
  object.
\<close>

definition SharedPtr_move_assign :: "bool \<Rightarrow> bool \<Rightarrow> nat \<Rightarrow> nat \<Rightarrow> frame \<Rightarrow> frame" where
  "SharedPtr_move_assign conv esft i j f =
     (let (copy, src, h1) = SharedPtr_move conv esft (mem f) (strong f ! j);
          vs1 = (strong f)[j := src];
          copy' = vs1 ! i;
          vs2 = vs1[i := copy]
      in f\<lparr>mem := SharedPtr_clear esft h1 copy', strong := vs2\<rparr>)"

text \<open>\<open>reset()\<close>: \<open>SharedPtr<T>().swap(*this)\<close>, then the temporary is destroyed.\<close>

definition SharedPtr_reset :: "bool \<Rightarrow> nat \<Rightarrow> frame \<Rightarrow> frame" where
  "SharedPtr_reset esft i f =
     (let tmp = SharedPtr None None;
          tmp' = strong f ! i;
          vs = (strong f)[i := tmp]
      in f\<lparr>mem := SharedPtr_clear esft (mem f) tmp', strong := vs\<rparr>)"

text \<open>\<open>reset(new T)\<close> with a fresh object at \<open>p\<close>:
  \<open>SharedPtr<T>(ptr, del, alloc).swap(*this)\<close>. The constraint
  \<open>std::is_convertible_v<Y, T>\<close> of this member decides only whether a call compiles.\<close>

definition SharedPtr_reset_ptr :: "bool \<Rightarrow> nat \<Rightarrow> addr \<Rightarrow> frame \<Rightarrow> frame" where
  "SharedPtr_reset_ptr esft i p f =
     (let h0 = (mem f)\<lparr>wptr := (wptr (mem f))(Separate p := WeakPtr None None)\<rparr>;
          (tmp, h1) = SharedPtr_from_ptr esft h0 (Some p);
          tmp' = strong f ! i;
          vs = (strong f)[i := tmp]
      in f\<lparr>mem := SharedPtr_clear esft h1 tmp', strong := vs\<rparr>)"

text \<open>\<open>swap(SharedPtr& other)\<close>\<close>

definition SharedPtr_swap :: "nat \<Rightarrow> nat \<Rightarrow> frame \<Rightarrow> frame" where
  "SharedPtr_swap i j f = f\<lparr>strong := (strong f)[i := strong f ! j, j := strong f ! i]\<rparr>"

text \<open>\<open>~SharedPtr()\<close> at the end of the variable's lifetime.\<close>

definition end_SharedPtr :: "bool \<Rightarrow> nat \<Rightarrow> frame \<Rightarrow> frame" where
  "end_SharedPtr esft i f =
     f\<lparr>mem := SharedPtr_clear esft (mem f) (strong f ! i), strong := drop_var i (strong f)\<rparr>"

subsection \<open>Weak handles\<close>

definition decl_WeakPtr :: "frame \<Rightarrow> frame" where
  "decl_WeakPtr f = f\<lparr>weak := weak f @ [WeakPtr None None]\<rparr>"

definition decl_WeakPtr_from_SharedPtr :: "nat \<Rightarrow> frame \<Rightarrow> frame" where
  "decl_WeakPtr_from_SharedPtr j f =
     (let (w, h) = WeakPtr_from_SharedPtr (mem f) (strong f ! j)
      in f\<lparr>mem := h, weak := weak f @ [w]\<rparr>)"

definition decl_WeakPtr_copy :: "nat \<Rightarrow> frame \<Rightarrow> frame" where
  "decl_WeakPtr_copy j f =
     (let (w, h) = WeakPtr_copy (mem f) (weak f ! j)
      in f\<lparr>mem := h, weak := weak f @ [w]\<rparr>)"

definition decl_WeakPtr_move :: "nat \<Rightarrow> frame \<Rightarrow> frame" where
  "decl_WeakPtr_move j f =
     (let (w, src) = WeakPtr_move (weak f ! j)
      in f\<lparr>weak := (weak f)[j := src] @ [w]\<rparr>)"

text \<open>\<open>swap(WeakPtr& other)\<close>, private, used by the assignment operators.\<close>

definition WeakPtr_swap :: "nat \<Rightarrow> nat \<Rightarrow> frame \<Rightarrow> frame" where
  "WeakPtr_swap i j f = f\<lparr>weak := (weak f)[i := weak f ! j, j := weak f ! i]\<rparr>"

text \<open>\<open>operator=(const WeakPtr& wptr)\<close> and \<open>operator=(WeakPtr&& wptr)\<close>\<close>

definition WeakPtr_copy_assign :: "nat \<Rightarrow> nat \<Rightarrow> frame \<Rightarrow> frame" where
  "WeakPtr_copy_assign i j f =
     (if i = j then f
      else
        let (copy, h1) = WeakPtr_copy (mem f) (weak f ! j);
            copy' = weak f ! i;
            vs = (weak f)[i := copy]
        in f\<lparr>mem := WeakPtr_clear h1 copy', weak := vs\<rparr>)"

definition WeakPtr_move_assign :: "nat \<Rightarrow> nat \<Rightarrow> frame \<Rightarrow> frame" where
  "WeakPtr_move_assign i j f =
     (let (copy, src) = WeakPtr_move (weak f ! j);
          vs1 = (weak f)[j := src];
          copy' = vs1 ! i;
          vs2 = vs1[i := copy]
      in f\<lparr>mem := WeakPtr_clear (mem f) copy', weak := vs2\<rparr>)"

text \<open>\<open>~WeakPtr()\<close>\<close>

definition end_WeakPtr :: "nat \<Rightarrow> frame \<Rightarrow> frame" where
  "end_WeakPtr i f =
     f\<lparr>mem := WeakPtr_clear (mem f) (weak f ! i), weak := drop_var i (weak f)\<rparr>"

section \<open>Programs\<close>

text \<open>A program is a sequence of the operations above on the variables in scope.\<close>

datatype op =
    Decl_SharedPtr
  | Decl_SharedPtr_from_new addr
  | Decl_makeShared
  | Decl_SharedPtr_copy nat
  | Decl_SharedPtr_move nat
  | Decl_lock nat
  | Copy_assign nat nat
  | Move_assign nat nat
  | Reset nat
  | Reset_ptr nat addr
  | Swap nat nat
  | End_SharedPtr nat
  | Decl_WeakPtr
  | Decl_WeakPtr_from_SharedPtr nat
  | Decl_WeakPtr_copy nat
  | Decl_WeakPtr_move nat
  | Weak_copy_assign nat nat
  | Weak_move_assign nat nat
  | End_WeakPtr nat

text \<open>
  An operation can be written only on variables that exist, and \<open>new T\<close> returns the
  address of no object that a strong handle still points to.
\<close>

definition fresh_object :: "frame \<Rightarrow> addr \<Rightarrow> bool" where
  "fresh_object f p = (\<not> list_ex (\<lambda>sp. sp_object sp = Some p) (strong f))"

fun enabled :: "frame \<Rightarrow> op \<Rightarrow> bool" where
  "enabled f Decl_SharedPtr = True"
| "enabled f (Decl_SharedPtr_from_new p) = fresh_object f p"
| "enabled f Decl_makeShared = True"
| "enabled f (Decl_SharedPtr_copy j) = (j < length (strong f))"
| "enabled f (Decl_SharedPtr_move j) = (j < length (strong f))"
| "enabled f (Decl_lock j) = (j < length (weak f))"
| "enabled f (Copy_assign i j) = (i < length (strong f) \<and> j < length (strong f))"
| "enabled f (Move_assign i j) = (i < length (strong f) \<and> j < length (strong f))"
| "enabled f (Reset i) = (i < length (strong f))"
| "enabled f (Reset_ptr i p) = (i < length (strong f) \<and> fresh_object f p)"
| "enabled f (Swap i j) = (i < length (strong f) \<and> j < length (strong f))"
| "enabled f (End_SharedPtr i) = (i < length (strong f))"
| "enabled f Decl_WeakPtr = True"
| "enabled f (Decl_WeakPtr_from_SharedPtr j) = (j < length (strong f))"
| "enabled f (Decl_WeakPtr_copy j) = (j < length (weak f))"
| "enabled f (Decl_WeakPtr_move j) = (j < length (weak f))"
| "enabled f (Weak_copy_assign i j) = (i < length (weak f) \<and> j < length (weak f))"
| "enabled f (Weak_move_assign i j) = (i < length (weak f) \<and> j < length (weak f))"
| "enabled f (End_WeakPtr i) = (i < length (weak f))"

fun exec :: "bool \<Rightarrow> bool \<Rightarrow> op \<Rightarrow> frame \<Rightarrow> frame" where
  "exec conv esft Decl_SharedPtr f = decl_SharedPtr f"
| "exec conv esft (Decl_SharedPtr_from_new p) f = decl_SharedPtr_from_new esft p f"
| "exec conv esft Decl_makeShared f = decl_makeShared esft f"
| "exec conv esft (Decl_SharedPtr_copy j) f = decl_SharedPtr_copy esft j f"
| "exec conv esft (Decl_SharedPtr_move j) f = decl_SharedPtr_move conv esft j f"
| "exec conv esft (Decl_lock j) f = decl_lock j f"
| "exec conv esft (Copy_assign i j) f = SharedPtr_copy_assign esft i j f"
| "exec conv esft (Move_assign i j) f = SharedPtr_move_assign conv esft i j f"
| "exec conv esft (Reset i) f = SharedPtr_reset esft i f"
| "exec conv esft (Reset_ptr i p) f = SharedPtr_reset_ptr esft i p f"
| "exec conv esft (Swap i j) f = SharedPtr_swap i j f"
| "exec conv esft (End_SharedPtr i) f = end_SharedPtr esft i f"
| "exec conv esft Decl_WeakPtr f = decl_WeakPtr f"
| "exec conv esft (Decl_WeakPtr_from_SharedPtr j) f = decl_WeakPtr_from_SharedPtr j f"
| "exec conv esft (Decl_WeakPtr_copy j) f = decl_WeakPtr_copy j f"
| "exec conv esft (Decl_WeakPtr_move j) f = decl_WeakPtr_move j f"
| "exec conv esft (Weak_copy_assign i j) f = WeakPtr_copy_assign i j f"
| "exec conv esft (Weak_move_assign i j) f = WeakPtr_move_assign i j f"
| "exec conv esft (End_WeakPtr i) f = end_WeakPtr i f"

definition step :: "bool \<Rightarrow> bool \<Rightarrow> frame \<Rightarrow> op \<Rightarrow> frame" where
  "step conv esft f x = (if enabled f x then exec conv esft x f else f)"

definition run :: "bool \<Rightarrow> bool \<Rightarrow> op list \<Rightarrow> frame \<Rightarrow> frame" where
  "run conv esft xs f = foldl (step conv esft) f xs"

subsection \<open>Counting live handles\<close>

definition strong_refs :: "frame \<Rightarrow> addr \<Rightarrow> nat" where
  "strong_refs f b = length (filter (\<lambda>sp. sp_cb sp = Some b) (strong f))"

text \<open>
  The object of a block, as \<open>destroy_object()\<close> finds it, is alive from the block's
  construction until \<open>destroy_object()\<close>. When \<open>T\<close> derives from
  \<open>EnableSharedFromThis<T>\<close>, each live object holds one more weak handle, its member.
\<close>

definition block_object :: "heap \<Rightarrow> addr \<Rightarrow> objref list" where
  "block_object h c =
     (case kind (blocks h c) of
        RegularControlBlock None \<Rightarrow> []
      | RegularControlBlock (Some p) \<Rightarrow> [Separate p]
      | MakeSharedControlBlock \<Rightarrow> [Embedded c])"

definition live_objects :: "heap \<Rightarrow> objref list" where
  "live_objects h =
     concat (map (block_object h)
       (filter (\<lambda>c. Destroy_object c \<notin> set (trace h)) [0..<next_cb h]))"

definition embedded_weak :: "bool \<Rightarrow> frame \<Rightarrow> WeakPtr list" where
  "embedded_weak esft f = (if esft then map (wptr (mem f)) (live_objects (mem f)) else [])"

definition weak_refs :: "bool \<Rightarrow> frame \<Rightarrow> addr \<Rightarrow> nat" where
  "weak_refs esft f b =
     length (filter (\<lambda>w. wp_cb w = Some b) (weak f @ embedded_weak esft f))"

section \<open>What a program can observe, and the invariant of its executions\<close>

text \<open>Whether \<open>destroy_object()\<close> has been called on a block.\<close>

definition destroyed :: "heap \<Rightarrow> addr \<Rightarrow> bool" where
  "destroyed h c = (Destroy_object c \<in> set (trace h))"

text \<open>
  The object a handle with the fields \<open>obj\<close> and \<open>cb = b\<close> reaches, as
  \<open>operator*\<close> and \<open>update_enable_shared_from_this()\<close> find it.
\<close>

definition obj_of :: "addr option \<Rightarrow> addr \<Rightarrow> objref" where
  "obj_of obj b = (case obj of Some p \<Rightarrow> Separate p | None \<Rightarrow> Embedded b)"

text \<open>The object of block \<open>b\<close> holds, in its member \<open>wptr\<close>, a weak handle on block \<open>c\<close>.\<close>

definition holds_weak :: "bool \<Rightarrow> heap \<Rightarrow> addr \<Rightarrow> addr \<Rightarrow> bool" where
  "holds_weak esft h b c = (esft \<and> list_ex (\<lambda>loc. wp_cb (wptr h loc) = Some c) (block_object h b))"

text \<open>The weak handles in variables that reference a block.\<close>

definition weak_var_refs :: "frame \<Rightarrow> addr \<Rightarrow> nat" where
  "weak_var_refs f b = length (filter (\<lambda>w. wp_cb w = Some b) (weak f))"

text \<open>One more when the block's own object is alive and its member references the block.\<close>

definition own :: "bool \<Rightarrow> frame \<Rightarrow> addr \<Rightarrow> nat" where
  "own esft f b = (if 0 < strong_refs f b \<and> holds_weak esft (mem f) b b then 1 else 0)"

text \<open>
  The invariant. Every handle with a block points to an allocated block and to that
  block's object; the counters are the numbers of handles, as \<open>size_t\<close>; the member of a
  live object references no other block; live blocks own different objects; and a block's
  object has been destroyed exactly when no strong handle references the block.
\<close>

definition handles_ok :: "frame \<Rightarrow> bool" where
  "handles_ok f =
     ((\<forall>sp \<in> set (strong f). \<forall>b. sp_cb sp = Some b \<longrightarrow>
          b < next_cb (mem f) \<and> block_object (mem f) b = [obj_of (sp_object sp) b])
    \<and> (\<forall>w \<in> set (weak f). \<forall>b. wp_cb w = Some b \<longrightarrow>
          b < next_cb (mem f) \<and> block_object (mem f) b = [obj_of (wp_object w) b]))"

definition counts_ok :: "bool \<Rightarrow> frame \<Rightarrow> bool" where
  "counts_ok esft f =
     (\<forall>b < next_cb (mem f).
        shared_cnt (blocks (mem f) b) = of_nat (strong_refs f b)
      \<and> weak_cnt (blocks (mem f) b) = of_nat (weak_var_refs f b + own esft f b))"

definition own_only :: "bool \<Rightarrow> frame \<Rightarrow> bool" where
  "own_only esft f =
     (\<forall>b c. 0 < strong_refs f b \<and> holds_weak esft (mem f) b c \<longrightarrow> c = b)"

definition objects_distinct :: "frame \<Rightarrow> bool" where
  "objects_distinct f =
     (\<forall>b c loc. 0 < strong_refs f b \<and> 0 < strong_refs f c
        \<and> loc \<in> set (block_object (mem f) b) \<and> loc \<in> set (block_object (mem f) c) \<longrightarrow> b = c)"

definition destroyed_ok :: "frame \<Rightarrow> bool" where
  "destroyed_ok f =
     (\<forall>b. destroyed (mem f) b = (b < next_cb (mem f) \<and> strong_refs f b = 0))"

definition frame_inv :: "bool \<Rightarrow> frame \<Rightarrow> bool" where
  "frame_inv esft f = (handles_ok f \<and> counts_ok esft f \<and> own_only esft f \<and> objects_distinct f
                 \<and> destroyed_ok f)"

text \<open>The members \<open>wptr\<close> of the objects at \<open>locs\<close> that reference block \<open>b\<close>.\<close>

definition cnt :: "heap \<Rightarrow> addr \<Rightarrow> objref list \<Rightarrow> nat" where
  "cnt h b locs = length (filter (\<lambda>w. wp_cb w = Some b) (map (wptr h) locs))"

section \<open>Example programs\<close>

text \<open>
  \<open>auto a = makeShared<T>(); SharedPtr<T> b(a); WeakPtr<T> w(b); a = std::move(b);\<close>
\<close>

definition example_program :: "op list" where
  "example_program =
     [Decl_makeShared, Decl_SharedPtr_copy 0, Decl_WeakPtr_from_SharedPtr 1, Move_assign 0 1]"


text \<open>\<open>auto a = makeShared<T>(); SharedPtr<T> b(new T);\<close> for a plain \<open>T\<close>, the object at 7.\<close>

definition two_blocks :: frame where
  "two_blocks = decl_SharedPtr_from_new False 7 (decl_makeShared False frame_init)"

text \<open>
  \<open>auto a = makeShared<T>(); WeakPtr<T> w(a);\<close> for a plain \<open>T\<close>: the store with
  \<open>a\<close> alive, and the store after \<open>a\<close> has been destroyed.
\<close>

definition heap_live :: heap where
  "heap_live =
     snd (WeakPtr_from_SharedPtr (snd (makeShared False heap_init)) (fst (makeShared False heap_init)))"

definition heap_expired :: heap where
  "heap_expired = SharedPtr_clear False heap_live (SharedPtr None (Some 0))"

section \<open>Effects of the operations on the store\<close>

lemmas model_defs = inc_shared_cnt_def dec_shared_cnt_def inc_weak_cnt_def dec_weak_cnt_def
  deallocate_cb_def WeakPtr_empty_def WeakPtr_from_SharedPtr_def WeakPtr_copy_def WeakPtr_move_def
  WeakPtr_clear_def WeakPtr_use_count_def WeakPtr_expired_def SharedPtr_empty_def destroy_T_def
  destroy_object_def SharedPtr_clear_def update_enable_shared_from_this_def SharedPtr_from_ptr_def
  SharedPtr_copy_def SharedPtr_move_def SharedPtr_from_make_shared_cb_def SharedPtr_from_WeakPtr_def
  SharedPtr_use_count_def SharedPtr_get_def SharedPtr_deref_def new_MakeSharedControlBlock_def
  makeShared_def WeakPtr_lock_def shared_from_this_def

lemmas frame_defs = drop_var_def decl_SharedPtr_def decl_SharedPtr_from_new_def decl_makeShared_def
  decl_SharedPtr_copy_def decl_SharedPtr_move_def decl_lock_def SharedPtr_copy_assign_def
  SharedPtr_move_assign_def SharedPtr_reset_def SharedPtr_reset_ptr_def SharedPtr_swap_def
  end_SharedPtr_def decl_WeakPtr_def decl_WeakPtr_from_SharedPtr_def decl_WeakPtr_copy_def
  decl_WeakPtr_move_def WeakPtr_copy_assign_def WeakPtr_move_assign_def end_WeakPtr_def

lemma block_object_cong:
  "kind (blocks h' c) = kind (blocks h c) \<Longrightarrow> block_object h' c = block_object h c"
  by (simp add: block_object_def)

subsection \<open>Counters\<close>

lemma inc_shared_cnt_obs [simp]:
  "next_cb (inc_shared_cnt b h) = next_cb h"
  "wptr (inc_shared_cnt b h) = wptr h"
  "trace (inc_shared_cnt b h) = trace h"
  "kind (blocks (inc_shared_cnt b h) c) = kind (blocks h c)"
  "shared_cnt (blocks (inc_shared_cnt b h) c) = shared_cnt (blocks h c) + (if c = b then 1 else 0)"
  "weak_cnt (blocks (inc_shared_cnt b h) c) = weak_cnt (blocks h c)"
  by (simp_all add: inc_shared_cnt_def)

lemma dec_shared_cnt_obs [simp]:
  "next_cb (dec_shared_cnt b h) = next_cb h"
  "wptr (dec_shared_cnt b h) = wptr h"
  "trace (dec_shared_cnt b h) = trace h"
  "kind (blocks (dec_shared_cnt b h) c) = kind (blocks h c)"
  "shared_cnt (blocks (dec_shared_cnt b h) c) = shared_cnt (blocks h c) - (if c = b then 1 else 0)"
  "weak_cnt (blocks (dec_shared_cnt b h) c) = weak_cnt (blocks h c)"
  by (simp_all add: dec_shared_cnt_def)

lemma inc_weak_cnt_obs [simp]:
  "next_cb (inc_weak_cnt b h) = next_cb h"
  "wptr (inc_weak_cnt b h) = wptr h"
  "trace (inc_weak_cnt b h) = trace h"
  "kind (blocks (inc_weak_cnt b h) c) = kind (blocks h c)"
  "shared_cnt (blocks (inc_weak_cnt b h) c) = shared_cnt (blocks h c)"
  "weak_cnt (blocks (inc_weak_cnt b h) c) = weak_cnt (blocks h c) + (if c = b then 1 else 0)"
  by (simp_all add: inc_weak_cnt_def)

lemma dec_weak_cnt_obs [simp]:
  "next_cb (dec_weak_cnt b h) = next_cb h"
  "wptr (dec_weak_cnt b h) = wptr h"
  "trace (dec_weak_cnt b h) = trace h"
  "kind (blocks (dec_weak_cnt b h) c) = kind (blocks h c)"
  "shared_cnt (blocks (dec_weak_cnt b h) c) = shared_cnt (blocks h c)"
  "weak_cnt (blocks (dec_weak_cnt b h) c) = weak_cnt (blocks h c) - (if c = b then 1 else 0)"
  by (simp_all add: dec_weak_cnt_def)

lemma deallocate_cb_obs [simp]:
  "next_cb (deallocate_cb b h) = next_cb h"
  "wptr (deallocate_cb b h) = wptr h"
  "blocks (deallocate_cb b h) = blocks h"
  "destroyed (deallocate_cb b h) c = destroyed h c"
  by (simp_all add: deallocate_cb_def destroyed_def)

lemma destroyed_counters [simp]:
  "destroyed (inc_shared_cnt b h) c = destroyed h c"
  "destroyed (dec_shared_cnt b h) c = destroyed h c"
  "destroyed (inc_weak_cnt b h) c = destroyed h c"
  "destroyed (dec_weak_cnt b h) c = destroyed h c"
  by (simp_all add: destroyed_def)

subsection \<open>Operations of the weak handle\<close>

lemma WeakPtr_clear_None [simp]: "wp_cb w = None \<Longrightarrow> WeakPtr_clear h w = h"
  by (simp add: WeakPtr_clear_def)

lemma WeakPtr_clear_obs [simp]:
  "next_cb (WeakPtr_clear h w) = next_cb h"
  "wptr (WeakPtr_clear h w) = wptr h"
  "kind (blocks (WeakPtr_clear h w) c) = kind (blocks h c)"
  "shared_cnt (blocks (WeakPtr_clear h w) c) = shared_cnt (blocks h c)"
  "weak_cnt (blocks (WeakPtr_clear h w) c) = weak_cnt (blocks h c) - (if wp_cb w = Some c then 1 else 0)"
  "destroyed (WeakPtr_clear h w) c = destroyed h c"
  by (simp_all add: WeakPtr_clear_def Let_def split: option.splits)

lemma WeakPtr_copy_obs [simp]:
  "fst (WeakPtr_copy h w) = w"
  "next_cb (snd (WeakPtr_copy h w)) = next_cb h"
  "wptr (snd (WeakPtr_copy h w)) = wptr h"
  "kind (blocks (snd (WeakPtr_copy h w)) c) = kind (blocks h c)"
  "shared_cnt (blocks (snd (WeakPtr_copy h w)) c) = shared_cnt (blocks h c)"
  "weak_cnt (blocks (snd (WeakPtr_copy h w)) c) = weak_cnt (blocks h c) + (if wp_cb w = Some c then 1 else 0)"
  "destroyed (snd (WeakPtr_copy h w)) c = destroyed h c"
  by (simp_all add: WeakPtr_copy_def split: option.splits)

lemma WeakPtr_from_SharedPtr_obs [simp]:
  "fst (WeakPtr_from_SharedPtr h sp) = WeakPtr (sp_object sp) (sp_cb sp)"
  "next_cb (snd (WeakPtr_from_SharedPtr h sp)) = next_cb h"
  "wptr (snd (WeakPtr_from_SharedPtr h sp)) = wptr h"
  "kind (blocks (snd (WeakPtr_from_SharedPtr h sp)) c) = kind (blocks h c)"
  "shared_cnt (blocks (snd (WeakPtr_from_SharedPtr h sp)) c) = shared_cnt (blocks h c)"
  "weak_cnt (blocks (snd (WeakPtr_from_SharedPtr h sp)) c) = weak_cnt (blocks h c) + (if sp_cb sp = Some c then 1 else 0)"
  "destroyed (snd (WeakPtr_from_SharedPtr h sp)) c = destroyed h c"
  by (simp_all add: WeakPtr_from_SharedPtr_def split: option.splits)

lemma SharedPtr_from_WeakPtr_obs [simp]:
  "fst (SharedPtr_from_WeakPtr h w) = SharedPtr (wp_object w) (wp_cb w)"
  "next_cb (snd (SharedPtr_from_WeakPtr h w)) = next_cb h"
  "wptr (snd (SharedPtr_from_WeakPtr h w)) = wptr h"
  "kind (blocks (snd (SharedPtr_from_WeakPtr h w)) c) = kind (blocks h c)"
  "shared_cnt (blocks (snd (SharedPtr_from_WeakPtr h w)) c)
     = shared_cnt (blocks h c) + (if wp_cb w = Some c then 1 else 0)"
  "weak_cnt (blocks (snd (SharedPtr_from_WeakPtr h w)) c) = weak_cnt (blocks h c)"
  "destroyed (snd (SharedPtr_from_WeakPtr h w)) c = destroyed h c"
  by (simp_all add: SharedPtr_from_WeakPtr_def split_beta Let_def split: option.splits)

lemma WeakPtr_lock_obs [simp]:
  "fst (WeakPtr_lock h w) = (if WeakPtr_expired h w then SharedPtr None None else SharedPtr (wp_object w) (wp_cb w))"
  "next_cb (snd (WeakPtr_lock h w)) = next_cb h"
  "wptr (snd (WeakPtr_lock h w)) = wptr h"
  "kind (blocks (snd (WeakPtr_lock h w)) c) = kind (blocks h c)"
  "shared_cnt (blocks (snd (WeakPtr_lock h w)) c)
     = shared_cnt (blocks h c) + (if \<not> WeakPtr_expired h w \<and> wp_cb w = Some c then 1 else 0)"
  "weak_cnt (blocks (snd (WeakPtr_lock h w)) c) = weak_cnt (blocks h c)"
  "destroyed (snd (WeakPtr_lock h w)) c = destroyed h c"
  by (simp_all add: WeakPtr_lock_def)

subsection \<open>\<open>update_enable_shared_from_this\<close>\<close>

lemma update_None [simp]: "sp_cb sp = None \<Longrightarrow> update_enable_shared_from_this esft h sp = h"
  by (simp add: update_enable_shared_from_this_def)

lemma update_False [simp]: "update_enable_shared_from_this False h sp = h"
  by (simp add: update_enable_shared_from_this_def split: option.splits)

lemma update_True:
  "sp_cb sp = Some b \<Longrightarrow>
   update_enable_shared_from_this True h sp
     = WeakPtr_clear ((inc_weak_cnt b h)\<lparr>wptr := (wptr h)(obj_of (sp_object sp) b := WeakPtr (sp_object sp) (Some b))\<rparr>)
          (wptr h (obj_of (sp_object sp) b))"
  by (simp add: update_enable_shared_from_this_def WeakPtr_from_SharedPtr_def WeakPtr_move_def obj_of_def Let_def)

lemma wptr_upd_obs [simp]:
  "next_cb (h\<lparr>wptr := m\<rparr>) = next_cb h"
  "blocks (h\<lparr>wptr := m\<rparr>) = blocks h"
  "destroyed (h\<lparr>wptr := m\<rparr>) c = destroyed h c"
  by (simp_all add: destroyed_def)

lemma update_next_cb [simp]: "next_cb (update_enable_shared_from_this esft h sp) = next_cb h"
proof (cases "esft \<and> sp_cb sp \<noteq> None")
  case True
  then show ?thesis by (auto simp: update_True)
next
  case False
  then show ?thesis by (cases esft) auto
qed

lemma update_kind [simp]:
  "kind (blocks (update_enable_shared_from_this esft h sp) c) = kind (blocks h c)"
proof (cases "esft \<and> sp_cb sp \<noteq> None")
  case True
  then show ?thesis by (auto simp: update_True)
next
  case False
  then show ?thesis by (cases esft) auto
qed

lemma update_shared_cnt [simp]:
  "shared_cnt (blocks (update_enable_shared_from_this esft h sp) c) = shared_cnt (blocks h c)"
proof (cases "esft \<and> sp_cb sp \<noteq> None")
  case True
  then show ?thesis by (auto simp: update_True)
next
  case False
  then show ?thesis by (cases esft) auto
qed

lemma update_destroyed [simp]:
  "destroyed (update_enable_shared_from_this esft h sp) c = destroyed h c"
proof (cases "esft \<and> sp_cb sp \<noteq> None")
  case True
  then show ?thesis by (auto simp: update_True)
next
  case False
  then show ?thesis by (cases esft) auto
qed

lemma update_wptr:
  "sp_cb sp = Some b \<Longrightarrow>
   wptr (update_enable_shared_from_this True h sp)
     = (wptr h)(obj_of (sp_object sp) b := WeakPtr (sp_object sp) (Some b))"
  by (simp add: update_True)

lemma update_weak_cnt:
  "sp_cb sp = Some b \<Longrightarrow>
   weak_cnt (blocks (update_enable_shared_from_this True h sp) c)
     = weak_cnt (blocks h c) + (if c = b then 1 else 0)
         - (if wp_cb (wptr h (obj_of (sp_object sp) b)) = Some c then 1 else 0)"
  by (simp add: update_True)

subsection \<open>\<open>destroy_object\<close> and \<open>SharedPtr::clear\<close>\<close>

lemma holds_weak_False [simp]: "holds_weak False h b c = False"
  by (simp add: holds_weak_def)

lemma destroy_T_obs [simp]:
  "next_cb (destroy_T esft loc h) = next_cb h"
  "wptr (destroy_T esft loc h) = wptr h"
  "kind (blocks (destroy_T esft loc h) c) = kind (blocks h c)"
  "shared_cnt (blocks (destroy_T esft loc h) c) = shared_cnt (blocks h c)"
  "destroyed (destroy_T esft loc h) c = destroyed h c"
  by (simp_all add: destroy_T_def)

lemma destroy_T_weak_cnt:
  "weak_cnt (blocks (destroy_T esft loc h) c)
     = weak_cnt (blocks h c) - (if esft \<and> wp_cb (wptr h loc) = Some c then 1 else 0)"
  by (simp add: destroy_T_def)

lemma trace_upd_obs [simp]:
  "next_cb (h\<lparr>trace := t\<rparr>) = next_cb h"
  "blocks (h\<lparr>trace := t\<rparr>) = blocks h"
  "wptr (h\<lparr>trace := t\<rparr>) = wptr h"
  by simp_all

lemma destroyed_snoc [simp]:
  "destroyed (h\<lparr>trace := trace h @ [e]\<rparr>) c = (destroyed h c \<or> e = Destroy_object c)"
  by (auto simp: destroyed_def)

lemma destroy_object_eq:
  "destroy_object esft b h =
     (case block_object h b of
        [] \<Rightarrow> h\<lparr>trace := trace h @ [Destroy_object b]\<rparr>
      | loc # _ \<Rightarrow> destroy_T esft loc (h\<lparr>trace := trace h @ [Destroy_object b]\<rparr>))"
  by (simp add: destroy_object_def block_object_def Let_def split: block_kind.splits option.splits)

lemma destroy_object_obs [simp]:
  "next_cb (destroy_object esft b h) = next_cb h"
  "wptr (destroy_object esft b h) = wptr h"
  "kind (blocks (destroy_object esft b h) c) = kind (blocks h c)"
  "shared_cnt (blocks (destroy_object esft b h) c) = shared_cnt (blocks h c)"
  "destroyed (destroy_object esft b h) c = (destroyed h c \<or> c = b)"
  by (auto simp add: destroy_object_eq split: list.splits)

lemma block_object_cases:
  "block_object h b = [] \<or> (\<exists>loc. block_object h b = [loc])"
  by (simp add: block_object_def split: block_kind.splits option.splits)

lemma destroy_object_weak_cnt:
  "weak_cnt (blocks (destroy_object esft b h) c)
     = weak_cnt (blocks h c) - (if holds_weak esft h b c then 1 else 0)"
  using block_object_cases [of h b]
  by (auto simp add: destroy_object_eq destroy_T_weak_cnt holds_weak_def)

lemma SharedPtr_clear_None [simp]: "sp_cb sp = None \<Longrightarrow> SharedPtr_clear esft h sp = h"
  by (simp add: SharedPtr_clear_def)

lemma SharedPtr_clear_Some:
  "sp_cb sp = Some b \<Longrightarrow>
   SharedPtr_clear esft h sp =
     (if shared_cnt (blocks h b) = 1
      then (let h2 = destroy_object esft b (dec_shared_cnt b h)
            in if weak_cnt (blocks h2 b) = 0 then deallocate_cb b h2 else h2)
      else dec_shared_cnt b h)"
  by (simp add: SharedPtr_clear_def Let_def)

lemma SharedPtr_clear_next_cb [simp]: "next_cb (SharedPtr_clear esft h sp) = next_cb h"
  by (cases "sp_cb sp") (simp_all add: SharedPtr_clear_Some Let_def)

lemma SharedPtr_clear_wptr [simp]: "wptr (SharedPtr_clear esft h sp) = wptr h"
  by (cases "sp_cb sp") (simp_all add: SharedPtr_clear_Some Let_def)

lemma SharedPtr_clear_kind [simp]:
  "kind (blocks (SharedPtr_clear esft h sp) c) = kind (blocks h c)"
  by (cases "sp_cb sp") (simp_all add: SharedPtr_clear_Some Let_def)

lemma SharedPtr_clear_shared_cnt:
  "shared_cnt (blocks (SharedPtr_clear esft h sp) c)
     = shared_cnt (blocks h c) - (if sp_cb sp = Some c then 1 else 0)"
  by (cases "sp_cb sp") (simp_all add: SharedPtr_clear_Some Let_def)

lemma SharedPtr_clear_destroyed:
  "destroyed (SharedPtr_clear esft h sp) c
     = (destroyed h c \<or> (sp_cb sp = Some c \<and> shared_cnt (blocks h c) = 1))"
  by (cases "sp_cb sp") (auto simp add: SharedPtr_clear_Some Let_def)

lemma holds_weak_kind:
  "wptr h' = wptr h \<Longrightarrow> kind (blocks h' b) = kind (blocks h b) \<Longrightarrow>
   holds_weak esft h' b c = holds_weak esft h b c"
  by (simp add: holds_weak_def block_object_def)

lemma SharedPtr_clear_weak_cnt:
  "weak_cnt (blocks (SharedPtr_clear esft h sp) c)
     = weak_cnt (blocks h c)
        - (if \<exists>b. sp_cb sp = Some b \<and> shared_cnt (blocks h b) = 1 \<and> holds_weak esft h b c
           then 1 else 0)"
  by (cases "sp_cb sp")
     (simp_all add: SharedPtr_clear_Some Let_def destroy_object_weak_cnt
        holds_weak_kind [where h' = "dec_shared_cnt b h" for b h])

text \<open>What the two \<open>clear()\<close> functions append to the trace.\<close>

lemma WeakPtr_clear_trace:
  "wp_cb w = Some b \<Longrightarrow>
   trace (WeakPtr_clear h w) =
     trace h @ (if shared_cnt (blocks h b) = 0 \<and> weak_cnt (blocks h b) = 1
                then [Deallocate_cb b] else [])"
  by (simp add: WeakPtr_clear_def deallocate_cb_def Let_def)

lemma SharedPtr_clear_trace_plain:
  "sp_cb sp = Some b \<Longrightarrow>
   trace (SharedPtr_clear False h sp) =
     trace h @ (if shared_cnt (blocks h b) = 1
                then Destroy_object b # (if weak_cnt (blocks h b) = 0 then [Deallocate_cb b] else [])
                else [])"
  by (simp add: SharedPtr_clear_Some destroy_object_eq destroy_T_def deallocate_cb_def Let_def
      split: list.splits)

subsection \<open>Lists of handles\<close>

lemma filter_update_count:
  "i < length xs \<Longrightarrow>
   length (filter P (xs[i := x])) + (if P (xs ! i) then 1 else 0)
     = length (filter P xs) + (if P x then 1 else 0)"
proof (induction xs arbitrary: i)
  case Nil
  then show ?case by simp
next
  case (Cons a xs)
  then show ?case by (cases i) auto
qed

lemma filter_drop_var_count:
  "i < length xs \<Longrightarrow>
   length (filter P (drop_var i xs)) + (if P (xs ! i) then 1 else 0) = length (filter P xs)"
proof (induction xs arbitrary: i)
  case Nil
  then show ?case by simp
next
  case (Cons a xs)
  then show ?case by (cases i) (auto simp: drop_var_def)
qed

lemma set_drop_var: "set (drop_var i xs) \<subseteq> set xs"
  by (auto simp: drop_var_def dest: in_set_takeD in_set_dropD)

lemma length_drop_var: "i < length xs \<Longrightarrow> length (drop_var i xs) = length xs - 1"
  by (auto simp: drop_var_def)

lemma filter_pos_iff: "0 < length (filter P xs) \<longleftrightarrow> (\<exists>x \<in> set xs. P x)"
  by (induction xs) auto

lemma strong_refs_pos: "0 < strong_refs f b \<longleftrightarrow> (\<exists>sp \<in> set (strong f). sp_cb sp = Some b)"
  unfolding strong_refs_def by (rule filter_pos_iff)

lemma strong_refs_le: "strong_refs f b \<le> length (strong f)"
  by (simp add: strong_refs_def)

lemma unat_of_nat64: "n < 2 ^ 64 \<Longrightarrow> unat (of_nat n :: 64 word) = n"
  by (simp add: unat_of_nat)

lemma word64_of_nat_eq:
  assumes "n < 2 ^ 64" "m < 2 ^ 64"
  shows "((of_nat n :: 64 word) = of_nat m) = (n = m)"
proof
  assume "(of_nat n :: 64 word) = of_nat m"
  then have "unat (of_nat n :: 64 word) = unat (of_nat m :: 64 word)" by (rule arg_cong)
  then show "n = m" by (simp only: unat_of_nat64 [OF assms(1)] unat_of_nat64 [OF assms(2)])
next
  assume "n = m"
  then show "(of_nat n :: 64 word) = of_nat m" by (rule arg_cong)
qed

lemma refs_mem_upd [simp]:
  "strong_refs (f\<lparr>mem := h\<rparr>) b = strong_refs f b"
  "weak_var_refs (f\<lparr>mem := h\<rparr>) b = weak_var_refs f b"
  by (simp_all add: strong_refs_def weak_var_refs_def)

lemma block_object_mem:
  "loc \<in> set (block_object h c) \<longleftrightarrow> block_object h c = [loc]"
  using block_object_cases [of h c] by auto

lemma block_object_kind_eq:
  "(\<And>c. kind (blocks h' c) = kind (blocks h c)) \<Longrightarrow> block_object h' = block_object h"
  by (rule ext) (simp add: block_object_def)

lemma update_block_object [simp]:
  "block_object (update_enable_shared_from_this esft h sp) = block_object h"
  by (rule block_object_kind_eq) simp

lemma holds_weak_update:
  assumes "sp_cb sp = Some b"
  shows "holds_weak True (update_enable_shared_from_this True h sp) c d
           = (if block_object h c = [obj_of (sp_object sp) b] then d = b
              else holds_weak True h c d)"
  using block_object_cases [of h c]
  by (auto simp: holds_weak_def update_wptr [OF assms])

lemma holds_weak_single:
  "block_object h b = [loc] \<Longrightarrow> holds_weak True h b c = (wp_cb (wptr h loc) = Some c)"
  by (simp add: holds_weak_def)

lemma inv_update:
  assumes i: "frame_inv esft f" and sp: "sp \<in> set (strong f)"
  shows "frame_inv esft (f\<lparr>mem := update_enable_shared_from_this esft (mem f) sp\<rparr>)"
proof (cases "esft \<and> sp_cb sp \<noteq> None")
  case False
  then have "update_enable_shared_from_this esft (mem f) sp = mem f"
    by (cases esft) auto
  with i show ?thesis by simp
next
  case True
  then obtain b where e: "esft = True" and b: "sp_cb sp = Some b" by auto
  define h where "h = mem f"
  define loc where "loc = obj_of (sp_object sp) b"
  define h' where "h' = update_enable_shared_from_this True h sp"
  define f' where "f' = f\<lparr>mem := h'\<rparr>"
  from i have ho: "handles_ok f" and co: "counts_ok True f" and oo: "own_only True f"
    and od: "objects_distinct f" and de: "destroyed_ok f"
    by (simp_all add: frame_inv_def e)
  from ho sp b have bn: "b < next_cb h" and bo: "block_object h b = [loc]"
    by (auto simp: handles_ok_def h_def loc_def)
  from sp b have live: "0 < strong_refs f b" by (auto simp: strong_refs_pos)
  have hw: "holds_weak True h' c d = (if block_object h c = [loc] then d = b else holds_weak True h c d)" for c d
    unfolding h'_def loc_def by (rule holds_weak_update [OF b])
  have uniq: "c = b" if "0 < strong_refs f c" "block_object h c = [loc]" for c
    using od that live bo unfolding objects_distinct_def h_def by (metis list.set_intros(1))
  have old: "c = b" if "wp_cb (wptr h loc) = Some c" for c
    using oo live bo that unfolding own_only_def h_def [symmetric]
    by (metis holds_weak_single)
  have 1: "handles_ok f'"
    using ho by (simp add: handles_ok_def f'_def h'_def h_def)
  have 5: "destroyed_ok f'"
    using de by (simp add: destroyed_ok_def f'_def h'_def h_def)
  have 4: "objects_distinct f'"
    using od by (simp add: objects_distinct_def f'_def h'_def h_def)
  have 3: "own_only True f'"
    unfolding own_only_def
  proof (intro allI impI)
    fix c d assume "0 < strong_refs f' c \<and> holds_weak True (mem f') c d"
    then have l: "0 < strong_refs f c" and w: "holds_weak True h' c d" by (simp_all add: f'_def)
    show "d = c"
    proof (cases "block_object h c = [loc]")
      case True
      with w uniq [OF l] show ?thesis by (simp add: hw)
    next
      case False
      with w have "holds_weak True h c d" by (simp add: hw)
      with oo l show ?thesis by (auto simp: own_only_def h_def)
    qed
  qed
  have 2: "counts_ok True f'"
    unfolding counts_ok_def
  proof (intro allI impI)
    fix c assume "c < next_cb (mem f')"
    then have cn: "c < next_cb h" by (simp add: f'_def h'_def)
    from co cn have s: "shared_cnt (blocks h c) = of_nat (strong_refs f c)"
      and w: "weak_cnt (blocks h c) = of_nat (weak_var_refs f c + own True f c)"
      by (simp_all add: counts_ok_def h_def)
    have wc: "weak_cnt (blocks h' c) = weak_cnt (blocks h c) + (if c = b then 1 else 0)
         - (if wp_cb (wptr h loc) = Some c then 1 else 0)"
      unfolding h'_def loc_def by (rule update_weak_cnt [OF b])
    have "weak_cnt (blocks h' c) = of_nat (weak_var_refs f c + own True f' c)"
    proof (cases "c = b")
      case True
      have "own True f' b = 1" using live bo by (simp add: own_def f'_def hw)
      moreover have "own True f b = (if wp_cb (wptr h loc) = Some b then 1 else 0)"
        using live bo by (simp add: own_def h_def [symmetric] holds_weak_single)
      ultimately show ?thesis using True w wc by simp
    next
      case False
      then have n: "wp_cb (wptr h loc) \<noteq> Some c" using old by auto
      have "own True f' c = own True f c"
      proof (cases "0 < strong_refs f c")
        case True
        with uniq False have "block_object h c \<noteq> [loc]" by auto
        then show ?thesis by (simp add: own_def f'_def hw h_def)
      next
        case False
        then show ?thesis by (simp add: own_def f'_def)
      qed
      with False n w wc show ?thesis by simp
    qed
    moreover have "shared_cnt (blocks h' c) = of_nat (strong_refs f c)"
      using s by (simp add: h'_def)
    ultimately show "shared_cnt (blocks (mem f') c) = of_nat (strong_refs f' c)
      \<and> weak_cnt (blocks (mem f') c) = of_nat (weak_var_refs f' c + own True f' c)"
      by (simp add: f'_def)
  qed
  from 1 2 3 4 5 show ?thesis
    by (simp add: frame_inv_def e f'_def h'_def h_def)
qed

lemma holds_weak_same:
  "wptr h' = wptr h \<Longrightarrow> block_object h' = block_object h \<Longrightarrow>
   holds_weak esft h' = holds_weak esft h"
  by (intro ext) (simp add: holds_weak_def)

lemma SharedPtr_clear_block_object [simp]:
  "block_object (SharedPtr_clear esft h sp) = block_object h"
  by (rule block_object_kind_eq) simp

lemma SharedPtr_clear_holds_weak [simp]:
  "holds_weak esft (SharedPtr_clear esft' h sp) = holds_weak esft h"
  by (rule holds_weak_same) simp_all

lemma inv_end_SharedPtr:
  assumes i: "frame_inv esft f" and il: "i < length (strong f)" and bd: "length (strong f) < 2 ^ 64"
  shows "frame_inv esft (end_SharedPtr esft i f)"
proof -
  define h where "h = mem f"
  define sp where "sp = strong f ! i"
  define h' where "h' = SharedPtr_clear esft h sp"
  define f' where "f' = f\<lparr>mem := h', strong := drop_var i (strong f)\<rparr>"
  define k where "k c = (if sp_cb sp = Some c then 1 else 0 :: nat)" for c
  have f'_eq: "end_SharedPtr esft i f = f'"
    by (simp add: end_SharedPtr_def f'_def h'_def h_def sp_def)
  from i have ho: "handles_ok f" and co: "counts_ok esft f" and oo: "own_only esft f"
    and od: "objects_distinct f" and de: "destroyed_ok f"
    by (simp_all add: frame_inv_def)
  have spin: "sp \<in> set (strong f)" using il by (simp add: sp_def)
  have S: "strong_refs f c = strong_refs f' c + k c" for c
    using filter_drop_var_count [OF il, of "\<lambda>sp. sp_cb sp = Some c"]
    by (simp add: strong_refs_def f'_def k_def sp_def)
  have W: "weak_var_refs f' c = weak_var_refs f c" for c
    by (simp add: weak_var_refs_def f'_def)
  have sub: "set (strong f') \<subseteq> set (strong f)"
    by (simp add: f'_def set_drop_var)
  have Sb: "strong_refs f c < 2 ^ 64" for c
    using strong_refs_le [of f c] bd by simp
  have kn: "c < next_cb h" if "k c = 1" for c
    using that ho spin by (auto simp: k_def handles_ok_def h_def split: if_splits)
  have hw: "holds_weak esft h' = holds_weak esft h" by (simp add: h'_def)
  have last: "(sp_cb sp = Some c \<and> shared_cnt (blocks h c) = 1) = (k c = 1 \<and> strong_refs f' c = 0)" for c
  proof (cases "k c = 1")
    case True
    then have cn: "c < next_cb h" by (rule kn)
    with co have "shared_cnt (blocks h c) = of_nat (strong_refs f c)"
      by (simp add: counts_ok_def h_def)
    then have "(shared_cnt (blocks h c) = 1) = (strong_refs f c = 1)"
      using word64_of_nat_eq [OF Sb [of c], of 1] by simp
    with True S [of c] show ?thesis by (auto simp: k_def split: if_splits)
  next
    case False
    then show ?thesis by (auto simp: k_def split: if_splits)
  qed
  have 1: "handles_ok f'"
    using ho sub by (auto simp: handles_ok_def f'_def h'_def h_def)
  have 5: "destroyed_ok f'"
    unfolding destroyed_ok_def
  proof
    fix c
    have "destroyed h' c = (destroyed h c \<or> (k c = 1 \<and> strong_refs f' c = 0))"
      by (simp add: h'_def SharedPtr_clear_destroyed last)
    moreover have "destroyed h c = (c < next_cb h \<and> strong_refs f c = 0)"
      using de by (simp add: destroyed_ok_def h_def)
    ultimately show "destroyed (mem f') c = (c < next_cb (mem f') \<and> strong_refs f' c = 0)"
      using S [of c] kn [of c] by (auto simp: f'_def h'_def k_def split: if_splits)
  qed
  have pos: "0 < strong_refs f c" if "0 < strong_refs f' c" for c
    using that S [of c] by simp
  have 4: "objects_distinct f'"
    unfolding objects_distinct_def
  proof (intro allI impI)
    fix b c loc
    assume "0 < strong_refs f' b \<and> 0 < strong_refs f' c
       \<and> loc \<in> set (block_object (mem f') b) \<and> loc \<in> set (block_object (mem f') c)"
    then have "0 < strong_refs f b \<and> 0 < strong_refs f c
       \<and> loc \<in> set (block_object (mem f) b) \<and> loc \<in> set (block_object (mem f) c)"
      using pos by (simp add: f'_def h'_def h_def)
    with od show "b = c" unfolding objects_distinct_def by blast
  qed
  have 3: "own_only esft f'"
    unfolding own_only_def
  proof (intro allI impI)
    fix b c
    assume "0 < strong_refs f' b \<and> holds_weak esft (mem f') b c"
    then have "0 < strong_refs f b \<and> holds_weak esft (mem f) b c"
      using pos by (simp add: f'_def hw h_def)
    with oo show "c = b" unfolding own_only_def by blast
  qed
  have 2: "counts_ok esft f'"
    unfolding counts_ok_def
  proof (intro allI impI)
    fix c assume "c < next_cb (mem f')"
    then have cn: "c < next_cb h" by (simp add: f'_def h'_def)
    from co cn have s: "shared_cnt (blocks h c) = of_nat (strong_refs f c)"
      and w: "weak_cnt (blocks h c) = of_nat (weak_var_refs f c + own esft f c)"
      by (simp_all add: counts_ok_def h_def)
    have s': "shared_cnt (blocks h' c) = of_nat (strong_refs f' c)"
      using s S [of c] by (simp add: h'_def SharedPtr_clear_shared_cnt k_def)
    have cond: "(\<exists>b. sp_cb sp = Some b \<and> shared_cnt (blocks h b) = 1 \<and> holds_weak esft h b c)
        = (k c = 1 \<and> strong_refs f' c = 0 \<and> holds_weak esft h c c)"
    proof
      assume "\<exists>b. sp_cb sp = Some b \<and> shared_cnt (blocks h b) = 1 \<and> holds_weak esft h b c"
      then obtain b where b: "sp_cb sp = Some b" "shared_cnt (blocks h b) = 1" "holds_weak esft h b c"
        by blast
      from b(1) spin have "0 < strong_refs f b" by (auto simp: strong_refs_pos)
      with oo b(3) have "c = b" by (auto simp: own_only_def h_def)
      with b last [of c] show "k c = 1 \<and> strong_refs f' c = 0 \<and> holds_weak esft h c c" by simp
    next
      assume "k c = 1 \<and> strong_refs f' c = 0 \<and> holds_weak esft h c c"
      with last [of c] show "\<exists>b. sp_cb sp = Some b \<and> shared_cnt (blocks h b) = 1 \<and> holds_weak esft h b c"
        by blast
    qed
    have wc: "weak_cnt (blocks h' c) = weak_cnt (blocks h c)
        - (if k c = 1 \<and> strong_refs f' c = 0 \<and> holds_weak esft h c c then 1 else 0)"
      by (simp only: h'_def SharedPtr_clear_weak_cnt cond)
    have "weak_cnt (blocks h' c) = of_nat (weak_var_refs f c + own esft f' c)"
    proof (cases "k c = 1 \<and> strong_refs f' c = 0")
      case True
      then have "own esft f' c = 0" by (simp add: own_def)
      moreover have "own esft f c = (if holds_weak esft h c c then 1 else 0)"
        using True S [of c] by (simp add: own_def h_def)
      ultimately show ?thesis using True w wc by simp
    next
      case False
      then have "(0 < strong_refs f' c) = (0 < strong_refs f c)"
        using S [of c] by (auto simp: k_def split: if_splits)
      then have "own esft f' c = own esft f c"
        by (simp add: own_def f'_def hw h_def)
      with False w wc show ?thesis by auto
    qed
    with s' show "shared_cnt (blocks (mem f') c) = of_nat (strong_refs f' c)
      \<and> weak_cnt (blocks (mem f') c) = of_nat (weak_var_refs f' c + own esft f' c)"
      by (simp add: W) (simp add: f'_def)
  qed
  from 1 2 3 4 5 show ?thesis
    by (simp add: frame_inv_def f'_eq)
qed

text \<open>A step that leaves the objects and their members as they are.\<close>

lemma inv_same_objects:
  assumes i: "frame_inv esft f"
    and n: "next_cb (mem f') = next_cb (mem f)"
    and w: "wptr (mem f') = wptr (mem f)"
    and k: "\<And>c. kind (blocks (mem f') c) = kind (blocks (mem f) c)"
    and live: "\<And>c. 0 < strong_refs f' c \<Longrightarrow> 0 < strong_refs f c"
    and ho: "handles_ok f'"
    and sh: "\<And>c. c < next_cb (mem f) \<Longrightarrow> shared_cnt (blocks (mem f') c) = of_nat (strong_refs f' c)"
    and wk: "\<And>c. c < next_cb (mem f) \<Longrightarrow>
               weak_cnt (blocks (mem f') c) = of_nat (weak_var_refs f' c + own esft f' c)"
    and de: "\<And>c. destroyed (mem f') c = (c < next_cb (mem f) \<and> strong_refs f' c = 0)"
  shows "frame_inv esft f'"
proof -
  have bo: "block_object (mem f') = block_object (mem f)"
    by (rule block_object_kind_eq) (rule k)
  have hw: "holds_weak esft (mem f') = holds_weak esft (mem f)"
    by (rule holds_weak_same [OF w bo])
  from i have oo: "own_only esft f" and od: "objects_distinct f"
    by (simp_all add: frame_inv_def)
  have 3: "own_only esft f'"
    unfolding own_only_def hw using oo live unfolding own_only_def by blast
  have 4: "objects_distinct f'"
    unfolding objects_distinct_def bo using od live unfolding objects_distinct_def by blast
  have 2: "counts_ok esft f'"
    unfolding counts_ok_def n using sh wk by blast
  have 5: "destroyed_ok f'"
    unfolding destroyed_ok_def n using de by blast
  from ho 2 3 4 5 show ?thesis by (simp add: frame_inv_def)
qed

lemma own_same:
  assumes "wptr (mem f') = wptr (mem f)"
    and "\<And>c. kind (blocks (mem f') c) = kind (blocks (mem f) c)"
    and "(0 < strong_refs f' c) = (0 < strong_refs f c)"
  shows "own esft f' c = own esft f c"
proof -
  have "block_object (mem f') = block_object (mem f)"
    by (rule block_object_kind_eq) (rule assms(2))
  with assms(1) have "holds_weak esft (mem f') = holds_weak esft (mem f)"
    by (rule holds_weak_same)
  with assms(3) show ?thesis by (simp add: own_def)
qed

text \<open>One more strong handle on a block that has one already.\<close>

lemma inv_add_strong:
  assumes i: "frame_inv esft f"
    and sp: "\<And>b. sp_cb sp = Some b \<Longrightarrow>
               0 < strong_refs f b \<and> b < next_cb (mem f)
               \<and> block_object (mem f) b = [obj_of (sp_object sp) b]"
    and n: "next_cb h' = next_cb (mem f)"
    and w: "wptr h' = wptr (mem f)"
    and k: "\<And>c. kind (blocks h' c) = kind (blocks (mem f) c)"
    and d: "\<And>c. destroyed h' c = destroyed (mem f) c"
    and wc: "\<And>c. weak_cnt (blocks h' c) = weak_cnt (blocks (mem f) c)"
    and sc: "\<And>c. shared_cnt (blocks h' c)
                = shared_cnt (blocks (mem f) c) + (if sp_cb sp = Some c then 1 else 0)"
  shows "frame_inv esft (f\<lparr>mem := h', strong := strong f @ [sp]\<rparr>)"
proof (rule inv_same_objects [OF i])
  let ?f' = "f\<lparr>mem := h', strong := strong f @ [sp]\<rparr>"
  from i have ho: "handles_ok f" and co: "counts_ok esft f" and de: "destroyed_ok f"
    by (simp_all add: frame_inv_def)
  have S: "strong_refs ?f' c = strong_refs f c + (if sp_cb sp = Some c then 1 else 0)" for c
    by (simp add: strong_refs_def)
  have W: "weak_var_refs ?f' c = weak_var_refs f c" for c
    by (simp add: weak_var_refs_def)
  have pos: "(0 < strong_refs ?f' c) = (0 < strong_refs f c)" for c
    using sp [of c] by (auto simp: S)
  show "next_cb (mem ?f') = next_cb (mem f)" by (simp add: n)
  show "wptr (mem ?f') = wptr (mem f)" by (simp add: w)
  show "kind (blocks (mem ?f') c) = kind (blocks (mem f) c)" for c by (simp add: k)
  show "0 < strong_refs ?f' c \<Longrightarrow> 0 < strong_refs f c" for c by (simp only: pos)
  have bo: "block_object h' = block_object (mem f)"
    by (rule block_object_kind_eq) (rule k)
  show "handles_ok ?f'"
    using ho sp by (auto simp: handles_ok_def n bo)
  show "shared_cnt (blocks (mem ?f') c) = of_nat (strong_refs ?f' c)" if "c < next_cb (mem f)" for c
    using co that by (simp add: counts_ok_def sc S)
  have "own esft ?f' c = own esft f c" for c
    by (rule own_same) (simp_all add: w k pos)
  then show "weak_cnt (blocks (mem ?f') c) = of_nat (weak_var_refs ?f' c + own esft ?f' c)"
    if "c < next_cb (mem f)" for c
    using co that by (simp add: counts_ok_def wc W)
  show "destroyed (mem ?f') c = (c < next_cb (mem f) \<and> strong_refs ?f' c = 0)" for c
  proof -
    have "(strong_refs ?f' c = 0) = (strong_refs f c = 0)"
      using pos [of c] by linarith
    moreover have "destroyed (mem f) c = (c < next_cb (mem f) \<and> strong_refs f c = 0)"
      using de by (simp add: destroyed_ok_def)
    ultimately show ?thesis by (simp add: d)
  qed
qed

text \<open>Rearranging the strong handles, or adding empty ones.\<close>

lemma inv_strong_perm:
  assumes i: "frame_inv esft f"
    and S: "\<And>c. strong_refs f' c = strong_refs f c"
    and m: "mem f' = mem f" and wl: "weak f' = weak f"
    and sub: "\<And>sp. sp \<in> set (strong f') \<Longrightarrow> sp_cb sp \<noteq> None \<Longrightarrow> sp \<in> set (strong f)"
  shows "frame_inv esft f'"
proof (rule inv_same_objects [OF i])
  from i have ho: "handles_ok f" and co: "counts_ok esft f" and de: "destroyed_ok f"
    by (simp_all add: frame_inv_def)
  show "next_cb (mem f') = next_cb (mem f)" by (simp add: m)
  show "wptr (mem f') = wptr (mem f)" by (simp add: m)
  show "kind (blocks (mem f') c) = kind (blocks (mem f) c)" for c by (simp add: m)
  show "0 < strong_refs f' c \<Longrightarrow> 0 < strong_refs f c" for c by (simp add: S)
  show "handles_ok f'"
    using ho sub unfolding handles_ok_def m wl by (metis option.distinct(1))
  have W: "weak_var_refs f' c = weak_var_refs f c" for c
    by (simp add: weak_var_refs_def wl)
  have "own esft f' c = own esft f c" for c
    by (simp add: own_def S m)
  then show "weak_cnt (blocks (mem f') c) = of_nat (weak_var_refs f' c + own esft f' c)"
    if "c < next_cb (mem f)" for c
    using co that by (simp add: counts_ok_def W m)
  show "shared_cnt (blocks (mem f') c) = of_nat (strong_refs f' c)" if "c < next_cb (mem f)" for c
    using co that by (simp add: counts_ok_def S m)
  show "destroyed (mem f') c = (c < next_cb (mem f) \<and> strong_refs f' c = 0)" for c
    using de by (simp add: destroyed_ok_def S m)
qed

text \<open>A change to the weak handles only.\<close>

lemma inv_weak_change:
  assumes i: "frame_inv esft f"
    and sl: "strong f' = strong f"
    and n: "next_cb (mem f') = next_cb (mem f)"
    and w: "wptr (mem f') = wptr (mem f)"
    and k: "\<And>c. kind (blocks (mem f') c) = kind (blocks (mem f) c)"
    and d: "\<And>c. destroyed (mem f') c = destroyed (mem f) c"
    and sc: "\<And>c. shared_cnt (blocks (mem f') c) = shared_cnt (blocks (mem f) c)"
    and wc: "\<And>c. c < next_cb (mem f) \<Longrightarrow>
               weak_cnt (blocks (mem f') c) + of_nat (weak_var_refs f c)
                 = weak_cnt (blocks (mem f) c) + of_nat (weak_var_refs f' c)"
    and sub: "\<And>w. w \<in> set (weak f') \<Longrightarrow> wp_cb w \<noteq> None \<Longrightarrow>
               w \<in> set (weak f) \<or> (\<exists>sp \<in> set (strong f). w = WeakPtr (sp_object sp) (sp_cb sp))"
  shows "frame_inv esft f'"
proof (rule inv_same_objects [OF i n w k])
  from i have ho: "handles_ok f" and co: "counts_ok esft f" and de: "destroyed_ok f"
    by (simp_all add: frame_inv_def)
  have S: "strong_refs f' c = strong_refs f c" for c
    by (simp add: strong_refs_def sl)
  show "0 < strong_refs f' c \<Longrightarrow> 0 < strong_refs f c" for c by (simp add: S)
  have bo: "block_object (mem f') = block_object (mem f)"
    by (rule block_object_kind_eq) (rule k)
  show "handles_ok f'"
    unfolding handles_ok_def
  proof (rule conjI; intro ballI allI impI)
    fix sp b assume "sp \<in> set (strong f')" "sp_cb sp = Some b"
    with ho show "b < next_cb (mem f') \<and> block_object (mem f') b = [obj_of (sp_object sp) b]"
      by (simp add: handles_ok_def sl n bo)
  next
    fix w b assume a: "w \<in> set (weak f')" "wp_cb w = Some b"
    with sub [of w] have "w \<in> set (weak f) \<or> (\<exists>sp \<in> set (strong f). w = WeakPtr (sp_object sp) (sp_cb sp))"
      by simp
    then show "b < next_cb (mem f') \<and> block_object (mem f') b = [obj_of (wp_object w) b]"
    proof
      assume "w \<in> set (weak f)"
      with ho a(2) show ?thesis by (simp add: handles_ok_def n bo)
    next
      assume "\<exists>sp \<in> set (strong f). w = WeakPtr (sp_object sp) (sp_cb sp)"
      then obtain sp where "sp \<in> set (strong f)" "w = WeakPtr (sp_object sp) (sp_cb sp)" by blast
      with ho a(2) show ?thesis by (simp add: handles_ok_def n bo)
    qed
  qed
  show "shared_cnt (blocks (mem f') c) = of_nat (strong_refs f' c)" if "c < next_cb (mem f)" for c
    using co that by (simp add: counts_ok_def S sc)
  have "own esft f' c = own esft f c" for c
    by (rule own_same) (simp_all add: w k S)
  moreover have "weak_cnt (blocks (mem f) c) = of_nat (weak_var_refs f c + own esft f c)"
    if "c < next_cb (mem f)" for c
    using co that by (simp add: counts_ok_def)
  ultimately show "weak_cnt (blocks (mem f') c) = of_nat (weak_var_refs f' c + own esft f' c)"
    if "c < next_cb (mem f)" for c
    using wc [OF that] that by simp
  show "destroyed (mem f') c = (c < next_cb (mem f) \<and> strong_refs f' c = 0)" for c
    using de by (simp add: destroyed_ok_def S d)
qed

text \<open>A new block with its first strong handle.\<close>

lemma inv_alloc:
  assumes i: "frame_inv esft f"
    and h': "h' = (mem f)\<lparr>blocks := (blocks (mem f))
                     (next_cb (mem f) := \<lparr>shared_cnt = 1, weak_cnt = 0, kind = kd\<rparr>),
                   next_cb := Suc (next_cb (mem f)),
                   wptr := (wptr (mem f))(loc := WeakPtr None None),
                   trace := trace (mem f) @ [Allocate (next_cb (mem f))]\<rparr>"
    and kd: "(kd = MakeSharedControlBlock \<and> obj = None \<and> loc = Embedded (next_cb (mem f)))
           \<or> (\<exists>p. kd = RegularControlBlock (Some p) \<and> obj = Some p \<and> loc = Separate p
                  \<and> fresh_object f p)"
  shows "frame_inv esft (f\<lparr>mem := h', strong := strong f @ [SharedPtr obj (Some (next_cb (mem f)))]\<rparr>)"
proof -
  define h where "h = mem f"
  define n where "n = next_cb h"
  define f' where "f' = f\<lparr>mem := h', strong := strong f @ [SharedPtr obj (Some n)]\<rparr>"
  from i have ho: "handles_ok f" and co: "counts_ok esft f" and oo: "own_only esft f"
    and od: "objects_distinct f" and de: "destroyed_ok f"
    by (simp_all add: frame_inv_def)
  have hn: "next_cb h' = Suc n" and hw': "wptr h' = (wptr h)(loc := WeakPtr None None)"
    and hb: "blocks h' = (blocks h)(n := \<lparr>shared_cnt = 1, weak_cnt = 0, kind = kd\<rparr>)"
    and hd: "destroyed h' c = destroyed h c" for c
    by (simp_all add: h' h_def n_def destroyed_def)
  have Sn: "strong_refs f n = 0"
  proof (rule ccontr)
    assume "strong_refs f n \<noteq> 0"
    then have "0 < strong_refs f n" by simp
    then obtain sp where "sp \<in> set (strong f)" "sp_cb sp = Some n" by (auto simp: strong_refs_pos)
    with ho show False by (auto simp: handles_ok_def n_def h_def)
  qed
  have Wn: "weak_var_refs f n = 0"
  proof (rule ccontr)
    assume "weak_var_refs f n \<noteq> 0"
    then have "0 < length (filter (\<lambda>w. wp_cb w = Some n) (weak f))" by (simp add: weak_var_refs_def)
    then have "\<exists>w \<in> set (weak f). wp_cb w = Some n" by (simp only: filter_pos_iff)
    then obtain w where "w \<in> set (weak f)" "wp_cb w = Some n" by blast
    with ho show False by (auto simp: handles_ok_def n_def h_def)
  qed
  have S: "strong_refs f' c = strong_refs f c + (if c = n then 1 else 0)" for c
    by (auto simp: strong_refs_def f'_def)
  have W: "weak_var_refs f' c = weak_var_refs f c" for c
    by (simp add: weak_var_refs_def f'_def)
  have m: "mem f' = h'" and wl: "weak f' = weak f" by (simp_all add: f'_def)
  have kdloc: "(case kd of RegularControlBlock None \<Rightarrow> [] | RegularControlBlock (Some p) \<Rightarrow> [Separate p]
                 | MakeSharedControlBlock \<Rightarrow> [Embedded n]) = [loc]"
    and objloc: "obj_of obj n = loc"
    using kd by (auto simp: n_def h_def obj_of_def)
  have bo: "block_object h' c = (if c = n then [loc] else block_object h c)" for c
    using kdloc by (cases "c = n") (simp_all add: block_object_def hb)
  have notloc: "loc \<notin> set (block_object h c)" if "0 < strong_refs f c" for c
  proof
    assume a: "loc \<in> set (block_object h c)"
    from that obtain sp where sp: "sp \<in> set (strong f)" "sp_cb sp = Some c"
      by (auto simp: strong_refs_pos)
    with ho have c: "c < n" "block_object h c = [obj_of (sp_object sp) c]"
      by (auto simp: handles_ok_def n_def h_def)
    from kd show False
    proof
      assume "kd = MakeSharedControlBlock \<and> obj = None \<and> loc = Embedded (next_cb (mem f))"
      with a c show False
        by (auto simp: obj_of_def n_def h_def split: option.splits)
    next
      assume "\<exists>p. kd = RegularControlBlock (Some p) \<and> obj = Some p \<and> loc = Separate p \<and> fresh_object f p"
      then obtain p where "loc = Separate p" "fresh_object f p" by blast
      with a c sp(1) show False
        by (auto simp: obj_of_def fresh_object_def list_ex_iff split: option.splits)
    qed
  qed
  have hw: "holds_weak esft h' c d = (c \<noteq> n \<and> holds_weak esft h c d)" if "0 < strong_refs f' c" for c d
  proof (cases "c = n")
    case True
    then show ?thesis by (simp add: holds_weak_def bo hw')
  next
    case False
    with that have "0 < strong_refs f c" by (simp add: S)
    then have "loc \<notin> set (block_object h c)" by (rule notloc)
    then have "list_ex (\<lambda>l. wp_cb (wptr h' l) = Some d) (block_object h c)
             = list_ex (\<lambda>l. wp_cb (wptr h l) = Some d) (block_object h c)"
      by (auto simp: list_ex_iff hw')
    with False show ?thesis by (simp add: holds_weak_def bo)
  qed
  have 1: "handles_ok f'"
    unfolding handles_ok_def
  proof (rule conjI; intro ballI allI impI)
    fix sp b assume a: "sp \<in> set (strong f')" "sp_cb sp = Some b"
    show "b < next_cb (mem f') \<and> block_object (mem f') b = [obj_of (sp_object sp) b]"
    proof (cases "sp \<in> set (strong f)")
      case True
      with ho a(2) have "b < n \<and> block_object h b = [obj_of (sp_object sp) b]"
        by (simp add: handles_ok_def n_def h_def)
      then show ?thesis by (simp add: m hn bo)
    next
      case False
      with a have "sp = SharedPtr obj (Some n)" "b = n" by (auto simp: f'_def)
      then show ?thesis by (simp add: m hn bo objloc)
    qed
  next
    fix w b assume a: "w \<in> set (weak f')" "wp_cb w = Some b"
    with ho have "b < n \<and> block_object h b = [obj_of (wp_object w) b]"
      by (simp add: handles_ok_def n_def h_def wl)
    then show "b < next_cb (mem f') \<and> block_object (mem f') b = [obj_of (wp_object w) b]"
      by (simp add: m hn bo)
  qed
  have ownn: "own esft f' c = (if c = n then 0 else own esft f c)" for c
  proof (cases "0 < strong_refs f' c")
    case True
    then show ?thesis using hw [OF True, of c] by (auto simp: own_def S m h_def)
  next
    case False
    then show ?thesis by (auto simp: own_def S)
  qed
  have 2: "counts_ok esft f'"
    unfolding counts_ok_def
  proof (intro allI impI)
    fix c assume "c < next_cb (mem f')"
    then have cn: "c < Suc n" by (simp add: m hn)
    show "shared_cnt (blocks (mem f') c) = of_nat (strong_refs f' c)
      \<and> weak_cnt (blocks (mem f') c) = of_nat (weak_var_refs f' c + own esft f' c)"
    proof (cases "c = n")
      case True
      then show ?thesis by (simp add: S W ownn Sn Wn m hb)
    next
      case False
      with cn have "c < n" by simp
      with co have "shared_cnt (blocks h c) = of_nat (strong_refs f c)
        \<and> weak_cnt (blocks h c) = of_nat (weak_var_refs f c + own esft f c)"
        by (simp add: counts_ok_def n_def h_def)
      with False show ?thesis by (simp add: S W ownn m hb)
    qed
  qed
  have 3: "own_only esft f'"
    unfolding own_only_def
  proof (intro allI impI)
    fix b c assume a: "0 < strong_refs f' b \<and> holds_weak esft (mem f') b c"
    then have "b \<noteq> n \<and> holds_weak esft h b c" using hw [of b c] by (simp add: m)
    moreover from this a have "0 < strong_refs f b" by (simp add: S)
    ultimately show "c = b" using oo by (auto simp: own_only_def h_def)
  qed
  have 4: "objects_distinct f'"
    unfolding objects_distinct_def
  proof (intro allI impI)
    fix b c l
    assume a: "0 < strong_refs f' b \<and> 0 < strong_refs f' c
       \<and> l \<in> set (block_object (mem f') b) \<and> l \<in> set (block_object (mem f') c)"
    show "b = c"
    proof (cases "b = n \<or> c = n")
      case True
      show ?thesis
      proof (rule ccontr)
        assume ne: "b \<noteq> c"
        with True a have "(0 < strong_refs f b \<and> loc \<in> set (block_object h b))
            \<or> (0 < strong_refs f c \<and> loc \<in> set (block_object h c))"
          by (auto simp: S m bo split: if_splits)
        with notloc [of b] notloc [of c] show False by auto
      qed
    next
      case False
      with a have "0 < strong_refs f b \<and> 0 < strong_refs f c
         \<and> l \<in> set (block_object h b) \<and> l \<in> set (block_object h c)"
        by (simp add: S m bo)
      with od show ?thesis unfolding objects_distinct_def h_def by blast
    qed
  qed
  have 5: "destroyed_ok f'"
    unfolding destroyed_ok_def
  proof
    fix c
    have "destroyed h c = (c < n \<and> strong_refs f c = 0)"
      using de by (simp add: destroyed_ok_def n_def h_def)
    then show "destroyed (mem f') c = (c < next_cb (mem f') \<and> strong_refs f' c = 0)"
      using Sn by (auto simp: S m hn hd)
  qed
  from 1 2 3 4 5 show ?thesis
    by (simp add: frame_inv_def f'_def n_def h_def)
qed

subsection \<open>Each operation keeps the invariant\<close>

lemma inv_decl_SharedPtr: "frame_inv esft f \<Longrightarrow> frame_inv esft (decl_SharedPtr f)"
  by (erule inv_strong_perm) (auto simp: decl_SharedPtr_def strong_refs_def)

lemma nth_strong_mem: "j < length (strong f) \<Longrightarrow> strong f ! j \<in> set (strong f)"
  by simp

lemma handle_live:
  assumes "handles_ok f" "sp \<in> set (strong f)" "sp_cb sp = Some b"
  shows "0 < strong_refs f b \<and> b < next_cb (mem f)
         \<and> block_object (mem f) b = [obj_of (sp_object sp) b]"
  using assms by (auto simp: handles_ok_def strong_refs_pos)

lemma SharedPtr_copy_eq:
  "SharedPtr_copy esft h sp =
     (sp, case sp_cb sp of None \<Rightarrow> update_enable_shared_from_this esft h sp
          | Some b \<Rightarrow> inc_shared_cnt b (update_enable_shared_from_this esft h sp))"
  by (cases sp) (simp add: SharedPtr_copy_def Let_def cong: option.case_cong)

lemma SharedPtr_move_eq:
  "SharedPtr_move True esft h sp = (sp, SharedPtr None None, update_enable_shared_from_this esft h sp)"
  by (cases sp) (simp add: SharedPtr_move_def Let_def)

lemma SharedPtr_move_not_convertible:
  "SharedPtr_move False esft h sp = (sp, sp, snd (SharedPtr_copy esft h sp))"
  by (simp add: SharedPtr_move_def SharedPtr_copy_eq)

lemma decl_SharedPtr_move_not_convertible:
  "decl_SharedPtr_move False esft j f = decl_SharedPtr_copy esft j f"
  by (simp add: decl_SharedPtr_move_def decl_SharedPtr_copy_def SharedPtr_move_not_convertible
      SharedPtr_copy_eq)

lemma inv_decl_SharedPtr_copy:
  assumes i: "frame_inv esft f" and j: "j < length (strong f)"
  shows "frame_inv esft (decl_SharedPtr_copy esft j f)"
proof -
  define sp where "sp = strong f ! j"
  define f1 where "f1 = f\<lparr>mem := update_enable_shared_from_this esft (mem f) sp\<rparr>"
  define h' where "h' = (case sp_cb sp of None \<Rightarrow> mem f1 | Some b \<Rightarrow> inc_shared_cnt b (mem f1))"
  have spin: "sp \<in> set (strong f)" using j by (simp add: sp_def)
  have i1: "frame_inv esft f1" unfolding f1_def by (rule inv_update [OF i spin])
  then have ho: "handles_ok f1" by (simp add: frame_inv_def)
  have spin1: "sp \<in> set (strong f1)" using spin by (simp add: f1_def)
  have eq: "decl_SharedPtr_copy esft j f = f1\<lparr>mem := h', strong := strong f1 @ [sp]\<rparr>"
    unfolding decl_SharedPtr_copy_def SharedPtr_copy_eq Let_def f1_def h'_def sp_def
    by (simp split: option.splits)
  have "frame_inv esft (f1\<lparr>mem := h', strong := strong f1 @ [sp]\<rparr>)"
  proof (rule inv_add_strong [OF i1])
    show "0 < strong_refs f1 b \<and> b < next_cb (mem f1)
         \<and> block_object (mem f1) b = [obj_of (sp_object sp) b]" if "sp_cb sp = Some b" for b
      using ho spin1 that by (rule handle_live)
  qed (cases "sp_cb sp"; simp add: h'_def destroyed_def)+
  then show ?thesis by (simp only: eq)
qed

lemma filter_move_count:
  assumes "j < length xs" "\<not> P e"
  shows "length (filter P (xs[j := e] @ [xs ! j])) = length (filter P xs)"
  using filter_update_count [OF assms(1), of P e] assms(2) by (simp split: if_splits)

lemma strong_refs_move:
  assumes "j < length (strong f)"
  shows "strong_refs (f\<lparr>strong := (strong f)[j := SharedPtr None None] @ [strong f ! j]\<rparr>) c
           = strong_refs f c"
proof -
  have "length (filter (\<lambda>sp. sp_cb sp = Some c) ((strong f)[j := SharedPtr None None] @ [strong f ! j]))
      = length (filter (\<lambda>sp. sp_cb sp = Some c) (strong f))"
    by (rule filter_move_count [OF assms]) simp
  then show ?thesis by (simp add: strong_refs_def)
qed

lemma inv_decl_SharedPtr_move:
  assumes i: "frame_inv esft f" and j: "j < length (strong f)"
  shows "frame_inv esft (decl_SharedPtr_move conv esft j f)"
proof (cases conv)
  case False
  then show ?thesis
    using inv_decl_SharedPtr_copy [OF i j] by (simp add: decl_SharedPtr_move_not_convertible)
next
  case True
  define sp where "sp = strong f ! j"
  define f1 where "f1 = f\<lparr>mem := update_enable_shared_from_this esft (mem f) sp\<rparr>"
  have spin: "sp \<in> set (strong f)" using j by (simp add: sp_def)
  have i1: "frame_inv esft f1" unfolding f1_def by (rule inv_update [OF i spin])
  have eq: "decl_SharedPtr_move True esft j f
              = f1\<lparr>strong := (strong f1)[j := SharedPtr None None] @ [strong f1 ! j]\<rparr>"
    unfolding decl_SharedPtr_move_def SharedPtr_move_eq Let_def f1_def sp_def
    by simp
  have "frame_inv esft (f1\<lparr>strong := (strong f1)[j := SharedPtr None None] @ [strong f1 ! j]\<rparr>)"
  proof (rule inv_strong_perm [OF i1])
    show "strong_refs (f1\<lparr>strong := (strong f1)[j := SharedPtr None None] @ [strong f1 ! j]\<rparr>) c
            = strong_refs f1 c" for c
      by (rule strong_refs_move) (simp add: f1_def j)
    show "sp' \<in> set (strong f1)"
      if "sp' \<in> set (strong (f1\<lparr>strong := (strong f1)[j := SharedPtr None None] @ [strong f1 ! j]\<rparr>))"
         "sp_cb sp' \<noteq> None" for sp'
      using that j set_update_subset_insert [of "strong f1" j "SharedPtr None None"]
      by (auto simp: f1_def)
  qed simp_all
  then show ?thesis by (simp only: eq True)
qed

lemma filter_swap_count:
  assumes "i < length xs" "j < length xs"
  shows "length (filter P (xs[i := xs ! j, j := xs ! i])) = length (filter P xs)"
proof -
  have 1: "length (filter P (xs[i := xs ! j])) + (if P (xs ! i) then 1 else 0)
             = length (filter P xs) + (if P (xs ! j) then 1 else 0)"
    by (rule filter_update_count [OF assms(1)])
  have "length (filter P (xs[i := xs ! j, j := xs ! i])) + (if P (xs[i := xs ! j] ! j) then 1 else 0)
          = length (filter P (xs[i := xs ! j])) + (if P (xs ! i) then 1 else 0)"
    by (rule filter_update_count) (simp add: assms)
  moreover have "xs[i := xs ! j] ! j = xs ! j"
    using assms by (cases "i = j") simp_all
  ultimately show ?thesis using 1 by simp
qed

lemma inv_SharedPtr_swap:
  assumes i: "frame_inv esft f" and il: "i < length (strong f)" and j: "j < length (strong f)"
  shows "frame_inv esft (SharedPtr_swap i j f)"
proof (rule inv_strong_perm [OF i])
  show "strong_refs (SharedPtr_swap i j f) c = strong_refs f c" for c
    by (simp add: strong_refs_def SharedPtr_swap_def filter_swap_count [OF il j])
  show "sp \<in> set (strong f)" if "sp \<in> set (strong (SharedPtr_swap i j f))" for sp
  proof -
    from that have "sp \<in> insert (strong f ! i) (set ((strong f)[i := strong f ! j]))"
      using set_update_subset_insert by (fastforce simp: SharedPtr_swap_def)
    then have "sp \<in> insert (strong f ! i) (insert (strong f ! j) (set (strong f)))"
      using set_update_subset_insert by fastforce
    with il j show ?thesis by auto
  qed
qed (simp_all add: SharedPtr_swap_def)

lemma inv_decl_lock:
  assumes i: "frame_inv esft f" and j: "j < length (weak f)"
  shows "frame_inv esft (decl_lock j f)"
proof (cases "WeakPtr_expired (mem f) (weak f ! j)")
  case True
  then have "decl_lock j f = decl_SharedPtr f"
    by (simp add: decl_lock_def decl_SharedPtr_def WeakPtr_lock_def)
  with i show ?thesis by (simp add: inv_decl_SharedPtr)
next
  case False
  define w where "w = weak f ! j"
  define sp where "sp = SharedPtr (wp_object w) (wp_cb w)"
  define h' where "h' = snd (SharedPtr_from_WeakPtr (mem f) w)"
  from False obtain b where b: "wp_cb w = Some b" and nz: "shared_cnt (blocks (mem f) b) \<noteq> 0"
    by (auto simp: WeakPtr_expired_def WeakPtr_use_count_def w_def split: option.splits)
  from i have ho: "handles_ok f" and co: "counts_ok esft f" by (simp_all add: frame_inv_def)
  have win: "w \<in> set (weak f)" using j by (simp add: w_def)
  with ho b have bn: "b < next_cb (mem f)" and bo: "block_object (mem f) b = [obj_of (wp_object w) b]"
    by (auto simp: handles_ok_def)
  from co bn nz have live: "0 < strong_refs f b"
    by (auto simp: counts_ok_def intro: of_nat_gt_0)
  have eq: "decl_lock j f = f\<lparr>mem := h', strong := strong f @ [sp]\<rparr>"
    using False
    by (simp add: decl_lock_def WeakPtr_lock_def split_beta h'_def sp_def w_def)
  have "frame_inv esft (f\<lparr>mem := h', strong := strong f @ [sp]\<rparr>)"
  proof (rule inv_add_strong [OF i])
    show "0 < strong_refs f c \<and> c < next_cb (mem f)
         \<and> block_object (mem f) c = [obj_of (sp_object sp) c]" if "sp_cb sp = Some c" for c
      using that b live bn bo by (simp add: sp_def)
  qed (simp_all add: h'_def sp_def)
  then show ?thesis by (simp only: eq)
qed

lemma inv_decl_makeShared:
  assumes i: "frame_inv esft f"
  shows "frame_inv esft (decl_makeShared esft f)"
proof -
  define n where "n = next_cb (mem f)"
  define h1 where "h1 = (mem f)\<lparr>blocks := (blocks (mem f))
                     (next_cb (mem f) := \<lparr>shared_cnt = 1, weak_cnt = 0, kind = MakeSharedControlBlock\<rparr>),
                   next_cb := Suc (next_cb (mem f)),
                   wptr := (wptr (mem f))(Embedded (next_cb (mem f)) := WeakPtr None None),
                   trace := trace (mem f) @ [Allocate (next_cb (mem f))]\<rparr>"
  define sp where "sp = SharedPtr None (Some (next_cb (mem f)))"
  define f1 where "f1 = f\<lparr>mem := h1, strong := strong f @ [sp]\<rparr>"
  have i1: "frame_inv esft f1"
    unfolding f1_def sp_def by (rule inv_alloc [OF i h1_def]) simp
  have "sp \<in> set (strong f1)" by (simp add: f1_def)
  with i1 have "frame_inv esft (f1\<lparr>mem := update_enable_shared_from_this esft (mem f1) sp\<rparr>)"
    by (rule inv_update)
  moreover have "new_MakeSharedControlBlock 1 0 (mem f) = (next_cb (mem f), h1)"
    unfolding new_MakeSharedControlBlock_def Let_def h1_def
    by (simp add: heap.equality)
  then have "decl_makeShared esft f = f1\<lparr>mem := update_enable_shared_from_this esft (mem f1) sp\<rparr>"
    by (simp add: decl_makeShared_def makeShared_def SharedPtr_from_make_shared_cb_def Let_def
        f1_def sp_def frame.equality)
  ultimately show ?thesis by simp
qed

lemma decl_SharedPtr_from_new_eq:
  "decl_SharedPtr_from_new esft p f =
     f\<lparr>mem := (mem f)\<lparr>blocks := (blocks (mem f))
                     (next_cb (mem f) := \<lparr>shared_cnt = 1, weak_cnt = 0,
                                           kind = RegularControlBlock (Some p)\<rparr>),
                   next_cb := Suc (next_cb (mem f)),
                   wptr := (wptr (mem f))(Separate p := WeakPtr None None),
                   trace := trace (mem f) @ [Allocate (next_cb (mem f))]\<rparr>,
        strong := strong f @ [SharedPtr (Some p) (Some (next_cb (mem f)))]\<rparr>"
  by (simp add: decl_SharedPtr_from_new_def SharedPtr_from_ptr_def Let_def heap.equality
      frame.equality)

lemma inv_decl_SharedPtr_from_new:
  assumes i: "frame_inv esft f" and p: "fresh_object f p"
  shows "frame_inv esft (decl_SharedPtr_from_new esft p f)"
  unfolding decl_SharedPtr_from_new_eq
  by (rule inv_alloc [OF i refl]) (simp add: p)

subsection \<open>Operations on weak handles keep the invariant\<close>

lemma inv_decl_WeakPtr: "frame_inv esft f \<Longrightarrow> frame_inv esft (decl_WeakPtr f)"
  by (erule inv_weak_change) (auto simp: decl_WeakPtr_def weak_var_refs_def)

lemma inv_decl_WeakPtr_from_SharedPtr:
  assumes i: "frame_inv esft f" and j: "j < length (strong f)"
  shows "frame_inv esft (decl_WeakPtr_from_SharedPtr j f)"
proof (rule inv_weak_change [OF i])
  let ?f' = "decl_WeakPtr_from_SharedPtr j f"
  show "w \<in> set (weak f) \<or> (\<exists>sp \<in> set (strong f). w = WeakPtr (sp_object sp) (sp_cb sp))"
    if "w \<in> set (weak ?f')" for w
    using that j by (auto simp: decl_WeakPtr_from_SharedPtr_def split_beta)
  show "weak_cnt (blocks (mem ?f') c) + of_nat (weak_var_refs f c)
      = weak_cnt (blocks (mem f) c) + of_nat (weak_var_refs ?f' c)" for c
    by (simp add: decl_WeakPtr_from_SharedPtr_def split_beta weak_var_refs_def)
qed (simp_all add: decl_WeakPtr_from_SharedPtr_def split_beta)

lemma inv_decl_WeakPtr_copy:
  assumes i: "frame_inv esft f" and j: "j < length (weak f)"
  shows "frame_inv esft (decl_WeakPtr_copy j f)"
proof (rule inv_weak_change [OF i])
  let ?f' = "decl_WeakPtr_copy j f"
  show "w \<in> set (weak f) \<or> (\<exists>sp \<in> set (strong f). w = WeakPtr (sp_object sp) (sp_cb sp))"
    if "w \<in> set (weak ?f')" for w
    using that j by (auto simp: decl_WeakPtr_copy_def split_beta)
  show "weak_cnt (blocks (mem ?f') c) + of_nat (weak_var_refs f c)
      = weak_cnt (blocks (mem f) c) + of_nat (weak_var_refs ?f' c)" for c
    by (simp add: decl_WeakPtr_copy_def split_beta weak_var_refs_def)
qed (simp_all add: decl_WeakPtr_copy_def split_beta)

lemma inv_decl_WeakPtr_move:
  assumes i: "frame_inv esft f" and j: "j < length (weak f)"
  shows "frame_inv esft (decl_WeakPtr_move j f)"
proof (rule inv_weak_change [OF i])
  let ?f' = "decl_WeakPtr_move j f"
  have eq: "?f' = f\<lparr>weak := (weak f)[j := WeakPtr None None] @ [weak f ! j]\<rparr>"
    by (simp add: decl_WeakPtr_move_def WeakPtr_move_def)
  show "w \<in> set (weak f) \<or> (\<exists>sp \<in> set (strong f). w = WeakPtr (sp_object sp) (sp_cb sp))"
    if "w \<in> set (weak ?f')" "wp_cb w \<noteq> None" for w
    using that j set_update_subset_insert [of "weak f" j "WeakPtr None None"]
    by (auto simp: eq)
  have "length (filter (\<lambda>w. wp_cb w = Some c) ((weak f)[j := WeakPtr None None] @ [weak f ! j]))
      = length (filter (\<lambda>w. wp_cb w = Some c) (weak f))" for c
    by (rule filter_move_count [OF j]) simp
  then have "weak_var_refs ?f' c = weak_var_refs f c" for c
    by (simp add: weak_var_refs_def eq)
  then show "weak_cnt (blocks (mem ?f') c) + of_nat (weak_var_refs f c)
      = weak_cnt (blocks (mem f) c) + of_nat (weak_var_refs ?f' c)" for c
    by (simp add: eq)
qed (simp_all add: decl_WeakPtr_move_def WeakPtr_move_def)

lemma inv_WeakPtr_swap:
  assumes i: "frame_inv esft f" and il: "i < length (weak f)" and j: "j < length (weak f)"
  shows "frame_inv esft (WeakPtr_swap i j f)"
proof (rule inv_weak_change [OF i])
  let ?f' = "WeakPtr_swap i j f"
  show "w \<in> set (weak f) \<or> (\<exists>sp \<in> set (strong f). w = WeakPtr (sp_object sp) (sp_cb sp))"
    if "w \<in> set (weak ?f')" for w
  proof -
    from that have "w \<in> insert (weak f ! i) (set ((weak f)[i := weak f ! j]))"
      using set_update_subset_insert by (fastforce simp: WeakPtr_swap_def)
    then have "w \<in> insert (weak f ! i) (insert (weak f ! j) (set (weak f)))"
      using set_update_subset_insert by fastforce
    with il j show ?thesis by auto
  qed
  have "weak_var_refs ?f' c = weak_var_refs f c" for c
    by (simp add: weak_var_refs_def WeakPtr_swap_def filter_swap_count [OF il j])
  then show "weak_cnt (blocks (mem ?f') c) + of_nat (weak_var_refs f c)
      = weak_cnt (blocks (mem f) c) + of_nat (weak_var_refs ?f' c)" for c
    by (simp add: WeakPtr_swap_def)
qed (simp_all add: WeakPtr_swap_def)

lemma inv_end_WeakPtr:
  assumes i: "frame_inv esft f" and il: "i < length (weak f)"
  shows "frame_inv esft (end_WeakPtr i f)"
proof (rule inv_weak_change [OF i])
  let ?f' = "end_WeakPtr i f"
  show "w \<in> set (weak f) \<or> (\<exists>sp \<in> set (strong f). w = WeakPtr (sp_object sp) (sp_cb sp))"
    if "w \<in> set (weak ?f')" for w
    using that set_drop_var [of i "weak f"] by (auto simp: end_WeakPtr_def)
  have "weak_var_refs ?f' c + (if wp_cb (weak f ! i) = Some c then 1 else 0) = weak_var_refs f c" for c
    using filter_drop_var_count [OF il, of "\<lambda>w. wp_cb w = Some c"]
    by (simp add: weak_var_refs_def end_WeakPtr_def)
  then have "(of_nat (weak_var_refs f c) :: size_t)
      = of_nat (weak_var_refs ?f' c) + (if wp_cb (weak f ! i) = Some c then 1 else 0)" for c
  proof -
    fix c
    assume "\<And>c. weak_var_refs ?f' c + (if wp_cb (weak f ! i) = Some c then 1 else 0) = weak_var_refs f c"
    then have "weak_var_refs f c = weak_var_refs ?f' c + (if wp_cb (weak f ! i) = Some c then 1 else 0)"
      by simp
    then have "(of_nat (weak_var_refs f c) :: size_t)
        = of_nat (weak_var_refs ?f' c + (if wp_cb (weak f ! i) = Some c then 1 else 0))"
      by (rule arg_cong)
    then show "(of_nat (weak_var_refs f c) :: size_t)
      = of_nat (weak_var_refs ?f' c) + (if wp_cb (weak f ! i) = Some c then 1 else 0)"
      by simp
  qed
  then show "weak_cnt (blocks (mem ?f') c) + of_nat (weak_var_refs f c)
      = weak_cnt (blocks (mem f) c) + of_nat (weak_var_refs ?f' c)" for c
    by (simp add: end_WeakPtr_def)
qed (simp_all add: end_WeakPtr_def)

subsection \<open>Assignment and reset are a declaration, a swap and a destructor\<close>

lemma swap_last:
  assumes "i < length xs"
  shows "(xs @ [a])[i := a, length xs := b] = xs[i := a] @ [b]"
  using assms by (simp add: list_update_append)

lemma drop_var_last: "n = length xs \<Longrightarrow> drop_var n (xs @ [a]) = xs"
  by (simp add: drop_var_def)

lemma SharedPtr_copy_assign_eq:
  assumes "i < length (strong f)" "i \<noteq> j"
  shows "SharedPtr_copy_assign esft i j f
           = end_SharedPtr esft (length (strong f))
               (SharedPtr_swap i (length (strong f)) (decl_SharedPtr_copy esft j f))"
  using assms
  by (simp add: SharedPtr_copy_assign_def end_SharedPtr_def SharedPtr_swap_def
      decl_SharedPtr_copy_def split_beta Let_def swap_last drop_var_last nth_append)

lemma SharedPtr_move_assign_eq:
  assumes "i < length (strong f)"
  shows "SharedPtr_move_assign conv esft i j f
           = end_SharedPtr esft (length (strong f))
               (SharedPtr_swap i (length (strong f)) (decl_SharedPtr_move conv esft j f))"
proof -
  define ys where "ys = (strong f)[j := fst (snd (SharedPtr_move conv esft (mem f) (strong f ! j)))]"
  have l: "length ys = length (strong f)" by (simp add: ys_def)
  have "i < length ys" using assms by (simp add: l)
  then show ?thesis
    using assms
    by (simp add: SharedPtr_move_assign_def end_SharedPtr_def SharedPtr_swap_def
        decl_SharedPtr_move_def split_beta Let_def l [symmetric] ys_def [symmetric]
        swap_last drop_var_last nth_append)
qed

lemma SharedPtr_reset_eq:
  assumes "i < length (strong f)"
  shows "SharedPtr_reset esft i f
           = end_SharedPtr esft (length (strong f))
               (SharedPtr_swap i (length (strong f)) (decl_SharedPtr f))"
  using assms
  by (simp add: SharedPtr_reset_def end_SharedPtr_def SharedPtr_swap_def
      decl_SharedPtr_def Let_def swap_last drop_var_last nth_append)

lemma SharedPtr_reset_ptr_eq:
  assumes "i < length (strong f)"
  shows "SharedPtr_reset_ptr esft i p f
           = end_SharedPtr esft (length (strong f))
               (SharedPtr_swap i (length (strong f)) (decl_SharedPtr_from_new esft p f))"
  using assms
  by (simp add: SharedPtr_reset_ptr_def end_SharedPtr_def SharedPtr_swap_def
      decl_SharedPtr_from_new_def split_beta Let_def swap_last drop_var_last nth_append)

lemma WeakPtr_copy_assign_eq:
  assumes "i < length (weak f)" "i \<noteq> j"
  shows "WeakPtr_copy_assign i j f
           = end_WeakPtr (length (weak f))
               (WeakPtr_swap i (length (weak f)) (decl_WeakPtr_copy j f))"
  using assms
  by (simp add: WeakPtr_copy_assign_def end_WeakPtr_def WeakPtr_swap_def
      decl_WeakPtr_copy_def split_beta Let_def swap_last drop_var_last nth_append)

lemma WeakPtr_move_assign_eq:
  assumes "i < length (weak f)"
  shows "WeakPtr_move_assign i j f
           = end_WeakPtr (length (weak f))
               (WeakPtr_swap i (length (weak f)) (decl_WeakPtr_move j f))"
proof -
  define ys where "ys = (weak f)[j := WeakPtr None None]"
  have l: "length ys = length (weak f)" by (simp add: ys_def)
  have "i < length ys" using assms by (simp add: l)
  then show ?thesis
    using assms
    by (simp add: WeakPtr_move_assign_def end_WeakPtr_def WeakPtr_swap_def
        decl_WeakPtr_move_def WeakPtr_move_def Let_def l [symmetric] ys_def [symmetric]
        swap_last drop_var_last nth_append)
qed

lemma length_decls [simp]:
  "length (strong (decl_SharedPtr f)) = Suc (length (strong f))"
  "length (strong (decl_SharedPtr_copy esft j f)) = Suc (length (strong f))"
  "length (strong (decl_SharedPtr_move conv esft j f)) = Suc (length (strong f))"
  "length (strong (decl_SharedPtr_from_new esft p f)) = Suc (length (strong f))"
  "length (strong (decl_makeShared esft f)) = Suc (length (strong f))"
  "length (strong (decl_lock k f)) = Suc (length (strong f))"
  "length (strong (SharedPtr_swap i j f)) = length (strong f)"
  "length (weak (decl_WeakPtr f)) = Suc (length (weak f))"
  "length (weak (decl_WeakPtr_copy j f)) = Suc (length (weak f))"
  "length (weak (decl_WeakPtr_move j f)) = Suc (length (weak f))"
  "length (weak (decl_WeakPtr_from_SharedPtr j f)) = Suc (length (weak f))"
  "length (weak (WeakPtr_swap i j f)) = length (weak f)"
  by (simp_all add: decl_SharedPtr_def decl_SharedPtr_copy_def decl_SharedPtr_move_def
      decl_SharedPtr_from_new_def decl_makeShared_def decl_lock_def SharedPtr_swap_def
      decl_WeakPtr_def decl_WeakPtr_copy_def decl_WeakPtr_move_def decl_WeakPtr_from_SharedPtr_def
      WeakPtr_swap_def split_beta Let_def)

lemma other_list [simp]:
  "weak (decl_SharedPtr f) = weak f"
  "weak (decl_SharedPtr_copy esft j f) = weak f"
  "weak (decl_SharedPtr_move conv esft j f) = weak f"
  "weak (decl_SharedPtr_from_new esft p f) = weak f"
  "weak (decl_makeShared esft f) = weak f"
  "weak (decl_lock k f) = weak f"
  "weak (SharedPtr_swap i j f) = weak f"
  "weak (end_SharedPtr esft i f) = weak f"
  "strong (decl_WeakPtr f) = strong f"
  "strong (decl_WeakPtr_copy j f) = strong f"
  "strong (decl_WeakPtr_move j f) = strong f"
  "strong (decl_WeakPtr_from_SharedPtr j f) = strong f"
  "strong (WeakPtr_swap i j f) = strong f"
  "strong (end_WeakPtr i f) = strong f"
  by (simp_all add: decl_SharedPtr_def decl_SharedPtr_copy_def decl_SharedPtr_move_def
      decl_SharedPtr_from_new_def decl_makeShared_def decl_lock_def SharedPtr_swap_def
      decl_WeakPtr_def decl_WeakPtr_copy_def decl_WeakPtr_move_def decl_WeakPtr_from_SharedPtr_def
      WeakPtr_swap_def end_SharedPtr_def end_WeakPtr_def split_beta Let_def)

lemma length_ends:
  "i < length (strong f) \<Longrightarrow> length (strong (end_SharedPtr esft i f)) = length (strong f) - 1"
  "i < length (weak f) \<Longrightarrow> length (weak (end_WeakPtr i f)) = length (weak f) - 1"
  by (simp_all add: end_SharedPtr_def end_WeakPtr_def length_drop_var)

lemma fresh_object_cong:
  "fresh_object (f\<lparr>mem := h\<rparr>) p = fresh_object f p"
  by (simp add: fresh_object_def)

lemma lt_Suc_bound: "n + 1 < (2::nat) ^ 64 \<Longrightarrow> Suc n < 2 ^ 64"
  by simp

lemma inv_temp_SharedPtr:
  assumes "frame_inv esft g" and "length (strong g) = Suc n" and "i < n" and "n + 1 < 2 ^ 64"
  shows "frame_inv esft (end_SharedPtr esft n (SharedPtr_swap i n g))"
proof -
  have "frame_inv esft (SharedPtr_swap i n g)"
    using assms by (intro inv_SharedPtr_swap) simp_all
  moreover have "n < length (strong (SharedPtr_swap i n g))"
    using assms by simp
  moreover have "length (strong (SharedPtr_swap i n g)) < 2 ^ 64"
    using assms by simp
  ultimately show ?thesis by (rule inv_end_SharedPtr)
qed

lemma inv_temp_WeakPtr:
  assumes "frame_inv esft g" and "length (weak g) = Suc n" and "i < n"
  shows "frame_inv esft (end_WeakPtr n (WeakPtr_swap i n g))"
proof -
  have "frame_inv esft (WeakPtr_swap i n g)"
    using assms by (intro inv_WeakPtr_swap) simp_all
  moreover have "n < length (weak (WeakPtr_swap i n g))"
    using assms by simp
  ultimately show ?thesis by (rule inv_end_WeakPtr)
qed

lemma inv_exec:
  assumes i: "frame_inv esft f" and en: "enabled f x" and bd: "length (strong f) + 1 < 2 ^ 64"
  shows "frame_inv esft (exec conv esft x f)"
proof (cases x)
  case Decl_SharedPtr
  with i show ?thesis by (simp add: inv_decl_SharedPtr)
next
  case (Decl_SharedPtr_from_new p)
  with i en show ?thesis by (simp add: inv_decl_SharedPtr_from_new)
next
  case Decl_makeShared
  with i show ?thesis by (simp add: inv_decl_makeShared)
next
  case (Decl_SharedPtr_copy j)
  with i en show ?thesis by (simp add: inv_decl_SharedPtr_copy)
next
  case (Decl_SharedPtr_move j)
  with i en show ?thesis by (simp add: inv_decl_SharedPtr_move)
next
  case (Decl_lock j)
  with i en show ?thesis by (simp add: inv_decl_lock)
next
  case (Copy_assign a b)
  with en have l: "a < length (strong f)" "b < length (strong f)" by simp_all
  show ?thesis
  proof (cases "a = b")
    case True
    with i Copy_assign show ?thesis by (simp add: SharedPtr_copy_assign_def)
  next
    case False
    have "frame_inv esft (end_SharedPtr esft (length (strong f))
            (SharedPtr_swap a (length (strong f)) (decl_SharedPtr_copy esft b f)))"
      by (rule inv_temp_SharedPtr [OF inv_decl_SharedPtr_copy [OF i l(2)] _ l(1) bd]) simp
    with False l Copy_assign show ?thesis by (simp add: SharedPtr_copy_assign_eq)
  qed
next
  case (Move_assign a b)
  with en have l: "a < length (strong f)" "b < length (strong f)" by simp_all
  have "frame_inv esft (end_SharedPtr esft (length (strong f))
          (SharedPtr_swap a (length (strong f)) (decl_SharedPtr_move conv esft b f)))"
    by (rule inv_temp_SharedPtr [OF inv_decl_SharedPtr_move [OF i l(2)] _ l(1) bd]) simp
  with l Move_assign show ?thesis by (simp add: SharedPtr_move_assign_eq)
next
  case (Reset a)
  with en have l: "a < length (strong f)" by simp
  have "frame_inv esft (end_SharedPtr esft (length (strong f))
          (SharedPtr_swap a (length (strong f)) (decl_SharedPtr f)))"
    by (rule inv_temp_SharedPtr [OF inv_decl_SharedPtr [OF i] _ l bd]) simp
  with l Reset show ?thesis by (simp add: SharedPtr_reset_eq)
next
  case (Reset_ptr a p)
  with en have l: "a < length (strong f)" and p: "fresh_object f p" by simp_all
  have "frame_inv esft (end_SharedPtr esft (length (strong f))
          (SharedPtr_swap a (length (strong f)) (decl_SharedPtr_from_new esft p f)))"
    by (rule inv_temp_SharedPtr [OF inv_decl_SharedPtr_from_new [OF i p] _ l bd]) simp
  with l Reset_ptr show ?thesis by (simp add: SharedPtr_reset_ptr_eq)
next
  case (Swap a b)
  with i en show ?thesis by (simp add: inv_SharedPtr_swap)
next
  case (End_SharedPtr a)
  with i en bd show ?thesis by (simp add: inv_end_SharedPtr)
next
  case Decl_WeakPtr
  with i show ?thesis by (simp add: inv_decl_WeakPtr)
next
  case (Decl_WeakPtr_from_SharedPtr j)
  with i en show ?thesis by (simp add: inv_decl_WeakPtr_from_SharedPtr)
next
  case (Decl_WeakPtr_copy j)
  with i en show ?thesis by (simp add: inv_decl_WeakPtr_copy)
next
  case (Decl_WeakPtr_move j)
  with i en show ?thesis by (simp add: inv_decl_WeakPtr_move)
next
  case (Weak_copy_assign a b)
  with en have l: "a < length (weak f)" "b < length (weak f)" by simp_all
  show ?thesis
  proof (cases "a = b")
    case True
    with i Weak_copy_assign show ?thesis by (simp add: WeakPtr_copy_assign_def)
  next
    case False
    have "frame_inv esft (end_WeakPtr (length (weak f))
            (WeakPtr_swap a (length (weak f)) (decl_WeakPtr_copy b f)))"
      by (rule inv_temp_WeakPtr [OF inv_decl_WeakPtr_copy [OF i l(2)] _ l(1)]) simp
    with False l Weak_copy_assign show ?thesis by (simp add: WeakPtr_copy_assign_eq)
  qed
next
  case (Weak_move_assign a b)
  with en have l: "a < length (weak f)" "b < length (weak f)" by simp_all
  have "frame_inv esft (end_WeakPtr (length (weak f))
          (WeakPtr_swap a (length (weak f)) (decl_WeakPtr_move b f)))"
    by (rule inv_temp_WeakPtr [OF inv_decl_WeakPtr_move [OF i l(2)] _ l(1)]) simp
  with l Weak_move_assign show ?thesis by (simp add: WeakPtr_move_assign_eq)
next
  case (End_WeakPtr a)
  with i en show ?thesis by (simp add: inv_end_WeakPtr)
qed

lemma length_assign [simp]:
  "length (strong (SharedPtr_copy_assign esft i j f)) = length (strong f)"
  "length (strong (SharedPtr_move_assign conv esft i j f)) = length (strong f)"
  "length (strong (SharedPtr_reset esft i f)) = length (strong f)"
  "length (strong (SharedPtr_reset_ptr esft i p f)) = length (strong f)"
  "length (weak (WeakPtr_copy_assign i j f)) = length (weak f)"
  "length (weak (WeakPtr_move_assign i j f)) = length (weak f)"
  "weak (SharedPtr_copy_assign esft i j f) = weak f"
  "weak (SharedPtr_move_assign conv esft i j f) = weak f"
  "weak (SharedPtr_reset esft i f) = weak f"
  "weak (SharedPtr_reset_ptr esft i p f) = weak f"
  "strong (WeakPtr_copy_assign i j f) = strong f"
  "strong (WeakPtr_move_assign i j f) = strong f"
  by (simp_all add: SharedPtr_copy_assign_def SharedPtr_move_assign_def SharedPtr_reset_def
      SharedPtr_reset_ptr_def WeakPtr_copy_assign_def WeakPtr_move_assign_def split_beta Let_def)

lemma length_exec:
  assumes "enabled f x"
  shows "length (strong (exec conv esft x f)) \<le> Suc (length (strong f))
       \<and> length (weak (exec conv esft x f)) \<le> Suc (length (weak f))"
  using assms by (cases x) (simp_all add: length_ends)

lemma length_step:
  "length (strong (step conv esft f x)) \<le> Suc (length (strong f))
   \<and> length (weak (step conv esft f x)) \<le> Suc (length (weak f))"
  using length_exec [of f x conv esft] by (simp add: step_def)

lemma inv_step:
  "frame_inv esft f \<Longrightarrow> length (strong f) + 1 < 2 ^ 64 \<Longrightarrow> frame_inv esft (step conv esft f x)"
  by (simp add: step_def inv_exec)

lemma inv_run:
  "frame_inv esft f \<Longrightarrow> length (strong f) + length xs + 1 < 2 ^ 64 \<Longrightarrow>
   frame_inv esft (run conv esft xs f)
   \<and> length (strong (run conv esft xs f)) \<le> length (strong f) + length xs
   \<and> length (weak (run conv esft xs f)) \<le> length (weak f) + length xs"
proof (induction xs arbitrary: f)
  case Nil
  then show ?case by (simp add: run_def)
next
  case (Cons x xs)
  have b: "length (strong f) + 1 < 2 ^ 64" using Cons.prems(2) by simp
  have i: "frame_inv esft (step conv esft f x)" by (rule inv_step [OF Cons.prems(1) b])
  note l = length_step [of conv esft f x]
  have "length (strong (step conv esft f x)) + length xs + 1 < 2 ^ 64"
    using l Cons.prems(2) by simp
  from Cons.IH [OF i this] l show ?case by (simp add: run_def)
qed

lemma inv_init: "frame_inv esft frame_init"
  by (simp add: frame_inv_def handles_ok_def counts_ok_def own_only_def objects_distinct_def
      destroyed_ok_def frame_init_def heap_init_def strong_refs_def destroyed_def)

subsection \<open>The counts are the numbers of live handles\<close>

lemma cnt_simps:
  "cnt h b [] = 0"
  "cnt h b (xs @ ys) = cnt h b xs + cnt h b ys"
  by (simp_all add: cnt_def)

lemma cnt_block_object:
  "cnt h b (block_object h c) = (if holds_weak True h c b then 1 else 0)"
  using block_object_cases [of h c] by (auto simp: holds_weak_def cnt_def)

lemma embedded_count:
  assumes l: "\<And>c. c < n \<Longrightarrow> L c \<Longrightarrow> holds_weak True h c b \<Longrightarrow> c = b"
    and m: "m \<le> n"
  shows "cnt h b (concat (map (block_object h) (filter L [0..<m])))
         = (if b < m \<and> L b \<and> holds_weak True h b b then 1 else 0)"
  using m
proof (induction m)
  case 0
  then show ?case by (simp add: cnt_simps)
next
  case (Suc m)
  then have mn: "m < n" and IH: "cnt h b (concat (map (block_object h) (filter L [0..<m])))
         = (if b < m \<and> L b \<and> holds_weak True h b b then 1 else 0)"
    by simp_all
  show ?case
  proof (cases "L m")
    case False
    then have "cnt h b (concat (map (block_object h) (filter L [0..<Suc m])))
        = cnt h b (concat (map (block_object h) (filter L [0..<m])))"
      by simp
    with False IH show ?thesis by (auto simp: less_Suc_eq)
  next
    case True
    then have "cnt h b (concat (map (block_object h) (filter L [0..<Suc m])))
        = cnt h b (concat (map (block_object h) (filter L [0..<m]))) + cnt h b (block_object h m)"
      by (simp add: cnt_simps)
    moreover have "(if holds_weak True h m b then 1 else 0 :: nat)
            = (if m = b \<and> holds_weak True h b b then 1 else 0)"
      using l [OF mn True] by auto
    ultimately show ?thesis
      using True IH by (auto simp: cnt_block_object less_Suc_eq)
  qed
qed

lemma weak_refs_eq:
  assumes i: "frame_inv esft f" and b: "b < next_cb (mem f)"
  shows "weak_refs esft f b = weak_var_refs f b + own esft f b"
proof (cases esft)
  case False
  then show ?thesis
    by (simp add: weak_refs_def embedded_weak_def weak_var_refs_def own_def)
next
  case True
  from i have oo: "own_only True f" and de: "destroyed_ok f"
    by (simp_all add: frame_inv_def True)
  define L where "L c = (Destroy_object c \<notin> set (trace (mem f)))" for c
  have L: "L c = (0 < strong_refs f c)" if "c < next_cb (mem f)" for c
    using de that by (auto simp: destroyed_ok_def destroyed_def L_def)
  have "cnt (mem f) b (concat (map (block_object (mem f)) (filter L [0..<next_cb (mem f)])))
         = (if b < next_cb (mem f) \<and> L b \<and> holds_weak True (mem f) b b then 1 else 0)"
  proof (rule embedded_count [OF _ order_refl])
    fix c assume "c < next_cb (mem f)" "L c" "holds_weak True (mem f) c b"
    with oo L [of c] show "c = b" by (auto simp: own_only_def)
  qed
  then have "length (filter (\<lambda>w. wp_cb w = Some b) (embedded_weak True f)) = own True f b"
    using b L [OF b]
    by (simp add: embedded_weak_def live_objects_def own_def L_def [abs_def] cnt_def)
  then show ?thesis
    by (simp add: weak_refs_def weak_var_refs_def True)
qed

lemma weak_var_refs_le: "weak_var_refs f b \<le> length (weak f)"
  by (simp add: weak_var_refs_def)

lemma own_le: "own esft f b \<le> 1"
  by (simp add: own_def)



section \<open>Observers\<close>

text \<open>
  C8. \<open>WeakPtr::use_count()\<close> is 0 for a null block pointer and the block's
  \<open>shared_cnt\<close> otherwise, and \<open>expired()\<close> holds exactly when \<open>use_count()\<close> is 0.
\<close>

theorem WeakPtr_use_count_expired:
  "WeakPtr_use_count h (WeakPtr obj None) = 0
   \<and> WeakPtr_use_count h (WeakPtr obj (Some b)) = shared_cnt (blocks h b)
   \<and> WeakPtr_expired h w = (WeakPtr_use_count h w = 0)"
  by (simp add: WeakPtr_use_count_def WeakPtr_expired_def)

text \<open>
  C5. \<open>SharedPtr::use_count()\<close> of the empty handle \<open>SharedPtr<T>()\<close> does not
  return 0: it reads \<open>cb->shared_cnt\<close> through the null \<open>cb\<close>. (For a handle with a
  block it returns that block's \<open>shared_cnt\<close>.)
\<close>

theorem SharedPtr_use_count_empty_faults:
  "SharedPtr_use_count heap_init SharedPtr_empty = Inl NullDereference
   \<and> SharedPtr_use_count heap_init SharedPtr_empty \<noteq> Inr 0"
  by (simp add: SharedPtr_use_count_def SharedPtr_empty_def)

lemma SharedPtr_use_count_block:
  "SharedPtr_use_count h (SharedPtr obj (Some b)) = Inr (shared_cnt (blocks h b))"
  by (simp add: SharedPtr_use_count_def)

section \<open>The in-place factory\<close>

text \<open>
  C6. \<open>makeShared\<close> makes one allocation, of one \<open>MakeSharedControlBlock\<close>, constructed
  with the counts (1, 0) and holding the object; the handle it returns has a null
  \<open>object\<close> pointer and that block as \<open>cb\<close>, and dereferencing it yields the object
  embedded in the block. When \<open>T\<close> derives from \<open>EnableSharedFromThis<T>\<close> the handle's
  constructor then stores a weak handle in the new object, which makes the weak count 1.
\<close>

theorem makeShared_one_fused_block:
  "(let (cb, h1) = new_MakeSharedControlBlock 1 0 h;
        (sp, h2) = makeShared esft h
    in cb = next_cb h
     \<and> trace h1 = trace h @ [Allocate cb]
     \<and> blocks h1 = (blocks h)(cb := \<lparr>shared_cnt = 1, weak_cnt = 0, kind = MakeSharedControlBlock\<rparr>)
     \<and> sp = SharedPtr None (Some cb)
     \<and> SharedPtr_deref sp = Inr (Embedded cb)
     \<and> trace h2 = trace h @ [Allocate cb]
     \<and> next_cb h2 = Suc (next_cb h)
     \<and> blocks h2 = (blocks h)(cb := \<lparr>shared_cnt = 1, weak_cnt = (if esft then 1 else 0),
                                      kind = MakeSharedControlBlock\<rparr>))"
  by (simp add: model_defs Let_def)

text \<open>
  C10. The handle \<open>makeShared\<close> returns is not empty (it has a block, whose
  \<open>shared_cnt\<close> is 1), yet \<open>get()\<close> returns the null pointer, while \<open>operator*\<close>
  and \<open>operator->\<close> succeed and reach the object embedded in the block. The same holds
  for a copy of that handle.
\<close>

theorem makeShared_get_null:
  "(let (sp, h1) = makeShared esft h;
        (sp', h2) = SharedPtr_copy esft h1 sp
    in SharedPtr_get sp = None
     \<and> sp_cb sp = Some (next_cb h)
     \<and> SharedPtr_use_count h1 sp = Inr 1
     \<and> SharedPtr_deref sp = Inr (Embedded (next_cb h))
     \<and> SharedPtr_get sp' = None
     \<and> SharedPtr_deref sp' = Inr (Embedded (next_cb h)))"
  by (simp add: model_defs Let_def)

text \<open>
  C7. The scenario, for a \<open>T\<close> without the \<open>EnableSharedFromThis\<close> base and from any
  store: \<open>A = makeShared<T>()\<close>, \<open>B(A)\<close>, \<open>~A\<close>, \<open>W(B)\<close>, \<open>~B\<close>, \<open>W.expired()\<close>,
  \<open>~W\<close>. The counts of the block go through (1,0), (2,0), (1,0), (1,1), (0,1), (0,0);
  \<open>destroy_object()\<close> is called in \<open>~B\<close> and not before, \<open>deallocate_cb()\<close> in
  \<open>~W\<close> and not before, and \<open>W.expired()\<close> is true.
\<close>

theorem scenario_makeShared_copy_weak:
  "(let b = next_cb h;
        (A, h1) = makeShared False h;
        (B, h2) = SharedPtr_copy False h1 A;
        h3 = SharedPtr_clear False h2 A;
        (W, h4) = WeakPtr_from_SharedPtr h3 B;
        h5 = SharedPtr_clear False h4 B;
        h6 = WeakPtr_clear h5 W
    in (shared_cnt (blocks h1 b), weak_cnt (blocks h1 b)) = (1, 0)
     \<and> (shared_cnt (blocks h2 b), weak_cnt (blocks h2 b)) = (2, 0)
     \<and> (shared_cnt (blocks h3 b), weak_cnt (blocks h3 b)) = (1, 0)
     \<and> trace h3 = trace h @ [Allocate b]
     \<and> (shared_cnt (blocks h4 b), weak_cnt (blocks h4 b)) = (1, 1)
     \<and> trace h4 = trace h @ [Allocate b]
     \<and> (shared_cnt (blocks h5 b), weak_cnt (blocks h5 b)) = (0, 1)
     \<and> trace h5 = trace h @ [Allocate b, Destroy_object b]
     \<and> WeakPtr_expired h5 W
     \<and> (shared_cnt (blocks h6 b), weak_cnt (blocks h6 b)) = (0, 0)
     \<and> trace h6 = trace h @ [Allocate b, Destroy_object b, Deallocate_cb b])"
  by (simp add: model_defs Let_def)

section \<open>Upgrading a weak handle\<close>

text \<open>
  C3. \<open>lock()\<close> on an expired weak handle returns the empty strong handle and leaves
  the store as it is, counts included. On a weak handle that is not expired it returns
  a strong handle with the weak handle's \<open>object\<close> and block, and in the store the
  \<open>shared_cnt\<close> of that block is one more; \<open>weak_cnt\<close> of that block and all other
  blocks are as before.
\<close>

theorem WeakPtr_lock_counts:
  "(WeakPtr_expired h w \<longrightarrow> WeakPtr_lock h w = (SharedPtr None None, h))
   \<and> (\<not> WeakPtr_expired h w \<longrightarrow>
        (\<exists>b. wp_cb w = Some b
           \<and> fst (WeakPtr_lock h w) = SharedPtr (wp_object w) (Some b)
           \<and> blocks (snd (WeakPtr_lock h w))
               = (blocks h)(b := (blocks h b)\<lparr>shared_cnt := shared_cnt (blocks h b) + 1\<rparr>)))"
  by (cases w) (auto simp: model_defs Let_def split: option.splits)

theorem WeakPtr_lock_counts_witness:
  "\<not> WeakPtr_expired heap_live (WeakPtr None (Some 0))
   \<and> fst (WeakPtr_lock heap_live (WeakPtr None (Some 0))) = SharedPtr None (Some 0)
   \<and> shared_cnt (blocks heap_live 0) = 1
   \<and> shared_cnt (blocks (snd (WeakPtr_lock heap_live (WeakPtr None (Some 0)))) 0) = 2
   \<and> weak_cnt (blocks (snd (WeakPtr_lock heap_live (WeakPtr None (Some 0)))) 0) = 1
   \<and> WeakPtr_expired heap_expired (WeakPtr None (Some 0))
   \<and> WeakPtr_lock heap_expired (WeakPtr None (Some 0)) = (SharedPtr None None, heap_expired)"
proof -
  have live: "\<not> WeakPtr_expired heap_live (WeakPtr None (Some 0))"
    and c: "shared_cnt (blocks heap_live 0) = 1" "weak_cnt (blocks heap_live 0) = 1"
    by (simp_all add: heap_live_def model_defs heap_init_def Let_def)
  have dead: "WeakPtr_expired heap_expired (WeakPtr None (Some 0))"
    by (simp add: heap_expired_def heap_live_def model_defs heap_init_def Let_def)
  from WeakPtr_lock_counts [of heap_live "WeakPtr None (Some 0)"] live
  have "\<exists>b. wp_cb (WeakPtr None (Some 0)) = Some b
      \<and> fst (WeakPtr_lock heap_live (WeakPtr None (Some 0)))
          = SharedPtr (wp_object (WeakPtr None (Some 0))) (Some b)
      \<and> blocks (snd (WeakPtr_lock heap_live (WeakPtr None (Some 0))))
          = (blocks heap_live)(b := (blocks heap_live b)\<lparr>shared_cnt := shared_cnt (blocks heap_live b) + 1\<rparr>)"
    by blast
  then have 1: "fst (WeakPtr_lock heap_live (WeakPtr None (Some 0))) = SharedPtr None (Some 0)"
    and 2: "blocks (snd (WeakPtr_lock heap_live (WeakPtr None (Some 0))))
          = (blocks heap_live)(0 := (blocks heap_live 0)\<lparr>shared_cnt := shared_cnt (blocks heap_live 0) + 1\<rparr>)"
    by auto
  from WeakPtr_lock_counts [of heap_expired "WeakPtr None (Some 0)"] dead
  have 3: "WeakPtr_lock heap_expired (WeakPtr None (Some 0)) = (SharedPtr None None, heap_expired)"
    by blast
  have 4: "shared_cnt (blocks (snd (WeakPtr_lock heap_live (WeakPtr None (Some 0)))) 0) = 2"
    "weak_cnt (blocks (snd (WeakPtr_lock heap_live (WeakPtr None (Some 0)))) 0) = 1"
    by (simp_all add: 2 c)
  from live dead 1 3 4 c show ?thesis by (intro conjI)
qed

section \<open>Self-observation\<close>

text \<open>
  C4. On the raw-pointer path the member \<open>wptr\<close> of the object is not populated:
  for a \<open>T\<close> with the \<open>EnableSharedFromThis\<close> base, after \<open>SharedPtr<T> sp(p)\<close>
  the object's \<open>wptr\<close> is still empty, \<open>shared_from_this()\<close> returns the empty handle
  and \<open>shared_cnt\<close> stays 1. (C++ access control is not part of the model: \<open>wptr\<close> is
  declared private in \<open>EnableSharedFromThis\<close>.)
\<close>

theorem SharedPtr_from_ptr_leaves_wptr_empty:
  "(let (sp, h1) = SharedPtr_from_ptr True heap_init (Some 7);
        (self, h2) = shared_from_this h1 (Separate 7)
    in sp = SharedPtr (Some 7) (Some 0)
     \<and> wptr h1 (Separate 7) = WeakPtr None None
     \<and> self = SharedPtr None None
     \<and> shared_cnt (blocks h2 0) = 1)"
  by (simp add: model_defs heap_init_def Let_def)

text \<open>
  On the \<open>makeShared\<close> path the member is populated by the handle's constructor, and
  \<open>shared_from_this()\<close> then returns a handle on the same block with \<open>shared_cnt\<close>
  one more; before any strong handle exists the member is empty and
  \<open>shared_from_this()\<close> returns the empty handle.
\<close>

lemma makeShared_populates_wptr:
  "(let (sp, h1) = makeShared True h;
        (self, h2) = shared_from_this h1 (Embedded (next_cb h))
    in wptr h1 (Embedded (next_cb h)) = WeakPtr None (Some (next_cb h))
     \<and> self = sp
     \<and> shared_cnt (blocks h1 (next_cb h)) = 1
     \<and> shared_cnt (blocks h2 (next_cb h)) = 2)"
  by (simp add: model_defs Let_def)

lemma shared_from_this_before_ownership:
  "wptr h loc = WeakPtr None None \<Longrightarrow> shared_from_this h loc = (SharedPtr None None, h)"
  by (simp add: model_defs)

section \<open>Releasing the block of a self-observing object\<close>

text \<open>
  C1. For a \<open>T\<close> with the \<open>EnableSharedFromThis\<close> base, \<open>deallocate_cb()\<close> is called
  twice on one block: \<open>{ auto sp = makeShared<T>(); }\<close>. The destructor of the handle
  takes \<open>shared_cnt\<close> to 0 and calls \<open>destroy_object()\<close>; destroying the object destroys
  its member \<open>wptr\<close>, whose \<open>clear()\<close> takes \<open>weak_cnt\<close> to 0 and calls
  \<open>deallocate_cb()\<close>; back in \<open>SharedPtr::clear()\<close>, \<open>weak_cnt\<close> is 0 and
  \<open>deallocate_cb()\<close> is called again.
\<close>

theorem self_observing_block_deallocated_twice:
  "(let (sp, h1) = makeShared True heap_init;
        h2 = SharedPtr_clear True h1 sp
    in (shared_cnt (blocks h1 0), weak_cnt (blocks h1 0)) = (1, 1)
     \<and> trace h2 = [Allocate 0, Destroy_object 0, Deallocate_cb 0, Deallocate_cb 0])"
  by (simp add: model_defs heap_init_def Let_def)

section \<open>Counts and live handles\<close>

text \<open>
  C2. Take any program of declarations, copies, moves, assignments, resets, swaps, locks
  and destructions of strong and weak handles, run from the empty state (fewer than
  \<open>2^64 - 1\<close> operations, so that no counter can wrap), with \<open>T\<close> deriving from
  \<open>EnableSharedFromThis<T>\<close> or not, and convertible to itself (so that a move of a
  strong handle empties its source) or not (so that it is a copy). Afterwards, for every
  allocated block,
  \<open>shared_cnt\<close> is the number of strong handles that reference the block,
  \<open>weak_cnt\<close> is the number of weak handles that reference it (those in variables
  and the members \<open>wptr\<close> of the objects that are alive), and the block's object has
  been destroyed exactly when no strong handle references the block, whatever the weak
  count is.
\<close>

theorem counts_are_live_handles:
  assumes bd: "length xs + 1 < 2 ^ 64"
    and f: "f = run conv esft xs frame_init"
    and b: "b < next_cb (mem f)"
  shows "unat (shared_cnt (blocks (mem f) b)) = strong_refs f b
       \<and> unat (weak_cnt (blocks (mem f) b)) = weak_refs esft f b
       \<and> (Destroy_object b \<in> set (trace (mem f))) = (strong_refs f b = 0)"
proof -
  have "length (strong frame_init) + length xs + 1 < 2 ^ 64"
    using bd by (simp add: frame_init_def)
  from inv_run [OF inv_init this, of esft conv]
  have i: "frame_inv esft f" and ls: "length (strong f) \<le> length xs"
    and lw: "length (weak f) \<le> length xs"
    by (simp_all add: f frame_init_def)
  from i b have s: "shared_cnt (blocks (mem f) b) = of_nat (strong_refs f b)"
    and w: "weak_cnt (blocks (mem f) b) = of_nat (weak_var_refs f b + own esft f b)"
    and d: "destroyed (mem f) b = (strong_refs f b = 0)"
    by (simp_all add: frame_inv_def counts_ok_def destroyed_ok_def)
  have "strong_refs f b < 2 ^ 64"
    using strong_refs_le [of f b] ls bd by simp
  then have 1: "unat (shared_cnt (blocks (mem f) b)) = strong_refs f b"
    by (simp only: s unat_of_nat64)
  have "weak_var_refs f b + own esft f b < 2 ^ 64"
    using weak_var_refs_le [of f b] own_le [of esft f b] lw bd by simp
  then have "unat (weak_cnt (blocks (mem f) b)) = weak_var_refs f b + own esft f b"
    by (simp only: w unat_of_nat64)
  then have 2: "unat (weak_cnt (blocks (mem f) b)) = weak_refs esft f b"
    by (simp only: weak_refs_eq [OF i b])
  from 1 2 d show ?thesis by (simp add: destroyed_def)
qed

theorem counts_are_live_handles_witness:
  "length example_program + 1 < 2 ^ 64
   \<and> 0 < next_cb (mem (run True True example_program frame_init))
   \<and> strong (run True True example_program frame_init) = [SharedPtr None (Some 0), SharedPtr None None]
   \<and> weak (run True True example_program frame_init) = [WeakPtr None (Some 0)]
   \<and> unat (shared_cnt (blocks (mem (run True True example_program frame_init)) 0)) = 1
   \<and> unat (weak_cnt (blocks (mem (run True True example_program frame_init)) 0)) = 2
   \<and> Destroy_object 0 \<notin> set (trace (mem (run True True example_program frame_init)))"
proof -
  define f where "f = run True True example_program frame_init"
  have l: "length example_program + 1 < 2 ^ 64" by (simp add: example_program_def)
  have ev: "strong f = [SharedPtr None (Some 0), SharedPtr None None]"
    "weak f = [WeakPtr None (Some 0)]" "next_cb (mem f) = 1"
    "wptr (mem f) (Embedded 0) = WeakPtr None (Some 0)"
    "trace (mem f) = [Allocate 0]"
    "kind (blocks (mem f) 0) = MakeSharedControlBlock"
    by (simp_all add: f_def example_program_def run_def step_def frame_defs frame_init_def
        model_defs heap_init_def Let_def)
  have b: "0 < next_cb (mem f)" by (simp add: ev)
  have sr: "strong_refs f 0 = 1" by (simp add: strong_refs_def ev)
  have wr: "weak_refs True f 0 = 2"
    by (simp add: weak_refs_def embedded_weak_def live_objects_def block_object_def ev)
  from counts_are_live_handles [OF l f_def b] sr wr l b ev
  show ?thesis by (simp add: f_def [symmetric])
qed

section \<open>Moving a strong handle\<close>





text \<open>
  For a \<open>T\<close> that is not convertible to itself the two operations are copies: the
  source keeps its pair and the block gains a strong count.
\<close>

lemma move_is_copy_when_not_convertible:
  "strong (decl_SharedPtr_move False False 0 (decl_makeShared False frame_init))
     = [SharedPtr None (Some 0), SharedPtr None (Some 0)]
   \<and> shared_cnt (blocks (mem (decl_SharedPtr_move False False 0 (decl_makeShared False frame_init))) 0) = 2
   \<and> strong (SharedPtr_move_assign False False 0 1 two_blocks)
        = [SharedPtr (Some 7) (Some 1), SharedPtr (Some 7) (Some 1)]
   \<and> shared_cnt (blocks (mem (SharedPtr_move_assign False False 0 1 two_blocks)) 1) = 2"
  by (simp add: two_blocks_def frame_defs frame_init_def model_defs heap_init_def Let_def)

text \<open>
  With the \<open>EnableSharedFromThis\<close> base, a move of a handle made from a raw pointer
  populates the object's member, which the constructor had left empty, and so raises
  \<open>weak_cnt\<close> from 0 to 1.
\<close>

lemma SharedPtr_move_populates_wptr:
  "strong (decl_SharedPtr_from_new True 7 frame_init) = [SharedPtr (Some 7) (Some 0)]
   \<and> weak_cnt (blocks (mem (decl_SharedPtr_from_new True 7 frame_init)) 0) = 0
   \<and> strong (decl_SharedPtr_move True True 0 (decl_SharedPtr_from_new True 7 frame_init))
        = [SharedPtr None None, SharedPtr (Some 7) (Some 0)]
   \<and> weak_cnt (blocks (mem (decl_SharedPtr_move True True 0 (decl_SharedPtr_from_new True 7 frame_init))) 0) = 1"
  by (simp add: frame_defs frame_init_def model_defs heap_init_def Let_def)

end
